theory Spec2Isabelle
  imports Complex_Main "HOL-Library.Sublist" "HOL-Library.AList" "HOL-Library.Log_Nat"
    "HOL-Library.Char_ord" "HOL-Library.List_Lexorder"
begin

section \<open>The mint-backgrounds updater (scripts/download\_backgrounds.py)\<close>

text \<open>
  The script scrapes a package mirror, decides which release tarballs are new, downloads and
  unpacks them and keeps an inventory (versions.json). Python strings are modelled as
  \<^typ>\<open>string\<close> (file and package names are taken to be ASCII), dictionaries as association
  lists in insertion order, exceptions as values of \<open>py_exception\<close>, and everything the script
  reads from or writes to the outside (the inventory file, the output tree, the temporary
  workspace, the downloads, the clock) as fields of a record that is passed along. What the
  mirror answers to the requests for its listing pages is a function of the URL and the
  number of the attempt, given to the functions that fetch them.
\<close>

subsection \<open>String primitives of Python\<close>

text \<open>
  \<open>s.replace(old, new)\<close>: every non-overlapping occurrence of \<open>old\<close>, found from left to
  right, is replaced; the scan continues behind the occurrence, never inside the text just
  produced. With an empty \<open>old\<close>, \<open>new\<close> is inserted before every character and at the end.
\<close>

fun str_replace :: "string \<Rightarrow> string \<Rightarrow> string \<Rightarrow> string" where
  "str_replace [] new s = new @ concat (map (\<lambda>c. c # new) s)"
| "str_replace (a # old) new [] = []"
| "str_replace (a # old) new (c # cs) =
     (if prefix (a # old) (c # cs)
      then new @ str_replace (a # old) new (drop (length (a # old)) (c # cs))
      else c # str_replace (a # old) new cs)"

text \<open>\<open>s.split(sep, 1)\<close> for a one-character separator that occurs in \<open>s\<close>: the text before
  the first separator and the text behind it.\<close>

definition split_first :: "char \<Rightarrow> string \<Rightarrow> string \<times> string" where
  "split_first sep s = (takeWhile (\<lambda>c. c \<noteq> sep) s, tl (dropWhile (\<lambda>c. c \<noteq> sep) s))"

text \<open>\<open>s.lower()\<close> on ASCII text.\<close>

definition lower_char :: "char \<Rightarrow> char" where
  "lower_char c =
     (case map_of (zip ''ABCDEFGHIJKLMNOPQRSTUVWXYZ'' ''abcdefghijklmnopqrstuvwxyz'') c of
        None \<Rightarrow> c | Some d \<Rightarrow> d)"

definition lower :: "string \<Rightarrow> string" where
  "lower s = map lower_char s"

definition upper_char :: "char \<Rightarrow> char" where
  "upper_char c =
     (case map_of (zip ''abcdefghijklmnopqrstuvwxyz'' ''ABCDEFGHIJKLMNOPQRSTUVWXYZ'') c of
        None \<Rightarrow> c | Some d \<Rightarrow> d)"

text \<open>\<open>s.capitalize()\<close>: first character upper case, the rest lower case.\<close>

definition capitalize :: "string \<Rightarrow> string" where
  "capitalize s = (case s of [] \<Rightarrow> [] | c # cs \<Rightarrow> upper_char c # lower cs)"

text \<open>\<open>s.endswith(ext)\<close> is \<^const>\<open>suffix\<close> and \<open>sub in s\<close> is \<^const>\<open>sublist\<close>.\<close>

definition endswith :: "string \<Rightarrow> string \<Rightarrow> bool" where
  "endswith s ext = suffix ext s"

definition contains :: "string \<Rightarrow> string \<Rightarrow> bool" where
  "contains s sub = sublist sub s"

subsection \<open>Exceptions\<close>

text \<open>The exception classes that matter to the script. \<open>HTTPError\<close> carries the status code;
  in Python it is a subclass of \<open>URLError\<close>, the others are unrelated to both.\<close>

datatype py_exception = HTTPError nat | URLError | TimeoutError | UnicodeDecodeError
  | ValueError | OverflowError | OSError | ReadError

subsection \<open>Constants\<close>

definition MIN_SIZE_MB :: int where "MIN_SIZE_MB = 13"
definition MIN_SIZE_BYTES :: int where "MIN_SIZE_BYTES = MIN_SIZE_MB * 1024 * 1024"
definition OUTPUT_DIR :: string where "OUTPUT_DIR = ''mint-backgrounds''"
definition MAX_RETRIES :: nat where "MAX_RETRIES = 3"
definition RETRY_DELAY :: nat where "RETRY_DELAY = 5"

subsection \<open>Version Key Resolver\<close>

definition extract_version_info :: "string \<Rightarrow> string \<times> string" where
  "extract_version_info tarball_name =
     (let base = str_replace ''.tar.gz'' '''' tarball_name;
          base = str_replace ''mint-backgrounds-'' '''' base
      in if CHR ''_'' \<in> set base then split_first (CHR ''_'') base
         else (base, ''unknown''))"

definition normalize_package_name :: "string \<Rightarrow> string" where
  "normalize_package_name name = str_replace ''-extra'' '''' name"

text \<open>The inventory key \<open>f"{package_name}_{version}"\<close>.\<close>

definition pkg_key :: "string \<times> string \<Rightarrow> string" where
  "pkg_key pv = fst pv @ ''_'' @ snd pv"

subsection \<open>Listing Parser: \<open>parse_size\<close>\<close>

text \<open>
  Python's \<open>float\<close> is IEEE 754 binary64. The size tokens are unsigned, so a float is
  modelled as a non-negative rational that binary64 represents, or infinity.
  \<open>floor_log2 q\<close> is the exponent \<open>e\<close> with \<open>2^e \<le> q < 2^(e+1)\<close> for \<open>q > 0\<close>;
  \<open>round_binary64\<close> rounds to the nearest representable value, ties to even, with a
  53-bit significand, gradual underflow below \<open>2^-1022\<close> and overflow to infinity when
  the rounded value reaches \<open>2^1024\<close>.
\<close>

datatype py_float = Finite rat | Infinity

definition pow2 :: "int \<Rightarrow> rat" where
  "pow2 e = (if 0 \<le> e then 2 ^ nat e else 1 / 2 ^ nat (- e))"

definition floor_log2 :: "rat \<Rightarrow> int" where
  "floor_log2 q = (if 1 \<le> q then bitlen \<lfloor>q\<rfloor> - 1 else - bitlen (\<lceil>1 / q\<rceil> - 1))"

definition round_half_even :: "rat \<Rightarrow> int" where
  "round_half_even q =
     (let f = \<lfloor>q\<rfloor>; r = q - of_int f
      in if r < 1 / 2 then f else if 1 / 2 < r then f + 1 else if even f then f else f + 1)"

definition round_binary64 :: "rat \<Rightarrow> py_float" where
  "round_binary64 q =
     (if q = 0 then Finite 0
      else let e = max (floor_log2 q - 52) (- 1074);
               r = of_int (round_half_even (q / pow2 e)) * pow2 e
           in if 1024 \<le> floor_log2 r then Infinity else Finite r)"

text \<open>
  \<open>re.match(r"([0-9.]+)([MKG])", s)\<close>: the first group is greedy, so it takes the longest
  run of digits and dots at the start of \<open>s\<close>; a shorter run would be followed by a digit
  or a dot, never by a unit letter, so backtracking finds nothing else. The match succeeds
  when that run is not empty and the next character is M, K or G.
\<close>

definition is_numchar :: "char \<Rightarrow> bool" where
  "is_numchar c = (c \<in> set ''0123456789.'')"

definition is_digit :: "char \<Rightarrow> bool" where
  "is_digit c = (c \<in> set ''0123456789'')"

definition match_size :: "string \<Rightarrow> (string \<times> char) option" where
  "match_size s =
     (let num = takeWhile is_numchar s
      in case dropWhile is_numchar s of
           [] \<Rightarrow> None
         | u # _ \<Rightarrow> if num \<noteq> [] \<and> u \<in> set ''MKG'' then Some (num, u) else None)"

text \<open>
  \<open>float(s)\<close> for a string of digits and dots: at most one dot and at least one digit, or
  \<open>ValueError\<close>; the decimal value is rounded correctly (CPython's \<open>strtod\<close>).
\<close>

definition digit_val :: "char \<Rightarrow> nat" where
  "digit_val c = (case map_of (zip ''0123456789'' [0, 1, 2, 3, 4, 5, 6, 7, 8, 9]) c of
                    Some d \<Rightarrow> d | None \<Rightarrow> 0)"

definition digits_val :: "string \<Rightarrow> nat" where
  "digits_val ds = foldl (\<lambda>a c. 10 * a + digit_val c) 0 ds"

definition decimal_value :: "string \<Rightarrow> rat option" where
  "decimal_value s =
     (let ip = takeWhile (\<lambda>c. c \<noteq> CHR ''.'') s
      in case dropWhile (\<lambda>c. c \<noteq> CHR ''.'') s of
           [] \<Rightarrow> if ip = [] then None else Some (of_nat (digits_val ip))
         | _ # fp \<Rightarrow>
             if CHR ''.'' \<in> set fp \<or> (ip = [] \<and> fp = []) then None
             else Some (of_nat (digits_val (ip @ fp)) / 10 ^ length fp))"

definition float_of_str :: "string \<Rightarrow> py_exception + py_float" where
  "float_of_str s = (case decimal_value s of None \<Rightarrow> Inl ValueError | Some q \<Rightarrow> Inr (round_binary64 q))"

text \<open>\<open>value * multiplier\<close> (the integer is converted exactly, the product is rounded) and
  \<open>int(x)\<close>, which truncates and raises \<open>OverflowError\<close> on infinity.\<close>

fun float_mul :: "py_float \<Rightarrow> int \<Rightarrow> py_float" where
  "float_mul Infinity m = Infinity"
| "float_mul (Finite v) m = round_binary64 (v * of_int m)"

fun int_of_float :: "py_float \<Rightarrow> py_exception + int" where
  "int_of_float Infinity = Inl OverflowError"
| "int_of_float (Finite v) = Inr \<lfloor>v\<rfloor>"

definition multipliers :: "(char \<times> int) list" where
  "multipliers = [(CHR ''K'', 1024), (CHR ''M'', 1024 ^ 2), (CHR ''G'', 1024 ^ 3)]"

definition parse_size :: "string \<Rightarrow> py_exception + int" where
  "parse_size size_str =
     (if size_str = [] then Inr 0
      else case match_size size_str of
             None \<Rightarrow> Inr 0
           | Some (num, unit) \<Rightarrow>
               (case float_of_str num of
                  Inl e \<Rightarrow> Inl e
                | Inr v \<Rightarrow> int_of_float (float_mul v
                     (case map_of multipliers unit of Some m \<Rightarrow> m | None \<Rightarrow> 1))))"

subsection \<open>HTTP Fetcher\<close>

text \<open>
  One pass through the body of the \<open>try\<close> in \<open>fetch_page\<close> (sleep, \<open>urlopen\<close>, \<open>read\<close>,
  \<open>decode\<close>) either returns the decoded text or raises. What the network answers to attempt
  number \<open>attempt\<close> is given by \<open>net\<close>. The sleeps and requests are recorded, in order.
\<close>

datatype outcome = Returns string | Raises py_exception

datatype fetch_event = Pause | Request string | Backoff nat

text \<open>
  \<open>for attempt in range(MAX_RETRIES)\<close>: \<open>remaining\<close> counts the iterations left. When the
  loop runs out, the function falls through to the final \<open>return ""\<close>. The handlers are
  \<open>except HTTPError\<close> and \<open>except URLError\<close>; an exception of another class leaves the
  function.
\<close>

fun fetch_attempts ::
  "(nat \<Rightarrow> outcome) \<Rightarrow> string \<Rightarrow> nat \<Rightarrow> nat \<Rightarrow> fetch_event list
     \<Rightarrow> (py_exception + string) \<times> fetch_event list" where
  "fetch_attempts net url attempt 0 evs = (Inr '''', evs)"
| "fetch_attempts net url attempt (Suc remaining) evs =
     (let evs = evs @ [Pause, Request url]
      in case net attempt of
           Returns body \<Rightarrow> (Inr body, evs)
         | Raises (HTTPError code) \<Rightarrow>
             if code = 429 \<or> code = 503
             then fetch_attempts net url (Suc attempt) remaining
                    (evs @ [Backoff (RETRY_DELAY * (attempt + 1))])
             else (Inr '''', evs)
         | Raises URLError \<Rightarrow>
             if attempt < MAX_RETRIES - 1
             then fetch_attempts net url (Suc attempt) remaining
                    (evs @ [Backoff (RETRY_DELAY * (attempt + 1))])
             else (Inr '''', evs)
         | Raises e \<Rightarrow> (Inl e, evs))"

definition fetch_page ::
  "(nat \<Rightarrow> outcome) \<Rightarrow> string \<Rightarrow> (py_exception + string) \<times> fetch_event list" where
  "fetch_page net url = fetch_attempts net url 0 MAX_RETRIES []"

definition requests :: "fetch_event list \<Rightarrow> nat" where
  "requests evs = length (filter (\<lambda>ev. case ev of Request _ \<Rightarrow> True | _ \<Rightarrow> False) evs)"

definition backoffs :: "fetch_event list \<Rightarrow> nat list" where
  "backoffs evs = concat (map (\<lambda>ev. case ev of Backoff d \<Rightarrow> [d] | _ \<Rightarrow> []) evs)"

definition retryable :: "outcome \<Rightarrow> bool" where
  "retryable r = (r = Raises (HTTPError 429) \<or> r = Raises (HTTPError 503) \<or> r = Raises URLError)"

subsection \<open>Data model\<close>

text \<open>A tarball entry of a listing, as \<open>get_tarballs_for_package\<close> builds it.\<close>

record tarball_info =
  name :: string
  url :: string
  size_bytes :: int
  size_str :: string

text \<open>An inventory record and the inventory document (versions.json). A document read
  from disk may lack the \<open>packages\<close> key and the statistics.\<close>

record package_record =
  rec_name :: string
  rec_version :: string
  rec_size :: string
  downloaded_at :: string

record statistics =
  total_packages :: nat
  total_images :: nat
  total_size_mb :: py_float
  latest_mint_release :: "string option"
  latest_mint_version :: rat

record versions =
  packages :: "(string \<times> package_record) list option"
  last_checked :: "string option"
  stats :: "statistics option"

text \<open>A file with its metadata, and an entry of \<open>files\<close> in \<open>os.walk(extract_dir)\<close>:
  its name, whether it is a symbolic link, what it holds, and the exception
  \<open>shutil.copy2\<close> raises on it, if any (an unreadable or special file, a full disk).\<close>

record file_data =
  content :: string
  mtime :: nat

record xfile =
  file_name :: string
  islink :: bool
  payload :: file_data
  copy2_error :: "py_exception option"

text \<open>What downloading and unpacking one tarball yields: \<open>urlopen\<close> or the opening of the
  tarball file raises (no file is written); or reading the response or writing it raises
  (the tarball file exists, empty or partial); or the tarball is written and \<open>tarfile\<close>
  raises; or the archive is extracted and \<open>os.walk\<close> lists these files below the extraction
  directory.\<close>

datatype download = Download_raises py_exception | Write_raises py_exception
  | Extract_raises py_exception | Extracted "xfile list"

text \<open>The temporary workspace of one \<open>download_and_extract\<close>: the tarball, when it was
  written inside the temporary directory, and the files extracted below it.\<close>

record workspace =
  tarball_path :: "string option"
  extract_dir :: "xfile list"

text \<open>The calls that write: what was downloaded, copied where, and the inventory saves.\<close>

datatype effect = Download string | Copy2 xfile string string string | Save

text \<open>
  The outside world. \<open>output_tree\<close> maps a base directory to its subdirectories and each of
  them to its files (\<open>os.path.join(base, sub)\<close> with \<open>sub\<close> taken as one directory name).
  \<open>temp\<close> holds the temporary workspaces that exist. \<open>outside_files\<close> lists the files that
  \<open>open(tarball_path, 'wb')\<close> created outside the temporary directory, each by the tarball
  name that led there. \<open>archive_at\<close> and \<open>utcnow_at\<close> say what a download of a URL yields and
  what the clock shows at a given tick; every download and every reading of the clock
  advances \<open>ticks\<close>.
\<close>

record world =
  versions_file :: "versions option"
  output_tree :: "(string \<times> (string \<times> (string \<times> file_data) list) list) list"
  temp :: "workspace list"
  outside_files :: "string list"
  effects :: "effect list"
  archive_at :: "nat \<Rightarrow> string \<Rightarrow> download"
  utcnow_at :: "nat \<Rightarrow> string"
  ticks :: nat

definition utcnow :: "world \<Rightarrow> string \<times> world" where
  "utcnow w = (utcnow_at w (ticks w), w\<lparr>ticks := Suc (ticks w)\<rparr>)"

definition subdirs :: "world \<Rightarrow> string \<Rightarrow> (string \<times> (string \<times> file_data) list) list" where
  "subdirs w base = (case map_of (output_tree w) base of None \<Rightarrow> [] | Some ds \<Rightarrow> ds)"

definition listdir :: "world \<Rightarrow> string \<Rightarrow> string \<Rightarrow> (string \<times> file_data) list" where
  "listdir w base sub = (case map_of (subdirs w base) sub of None \<Rightarrow> [] | Some fs \<Rightarrow> fs)"

text \<open>\<open>os.makedirs(os.path.join(base, sub), exist_ok=True)\<close> and \<open>os.makedirs(base, exist_ok=True)\<close>.\<close>

definition makedirs :: "string \<Rightarrow> string \<Rightarrow> world \<Rightarrow> world" where
  "makedirs base sub w =
     w\<lparr>output_tree := AList.update base (AList.update sub (listdir w base sub) (subdirs w base))
                        (output_tree w)\<rparr>"

definition makedirs_base :: "string \<Rightarrow> world \<Rightarrow> world" where
  "makedirs_base base w = w\<lparr>output_tree := AList.update base (subdirs w base) (output_tree w)\<rparr>"

text \<open>\<open>shutil.copy2(file_path, os.path.join(output_dir, dst))\<close>: contents and metadata, over
  whatever \<open>dst\<close> was.\<close>

definition copy2 :: "xfile \<Rightarrow> string \<Rightarrow> string \<Rightarrow> string \<Rightarrow> world \<Rightarrow> py_exception + world" where
  "copy2 src base sub dst w =
     (case copy2_error src of
        Some e \<Rightarrow> Inl e
      | None \<Rightarrow> Inr (w\<lparr>output_tree :=
                         AList.update base
                           (AList.update sub (AList.update dst (payload src) (listdir w base sub))
                              (subdirs w base))
                           (output_tree w),
                       effects := effects w @ [Copy2 src base sub dst]\<rparr>))"

subsection \<open>Inventory Store\<close>

definition load_versions :: "world \<Rightarrow> versions" where
  "load_versions w =
     (case versions_file w of
        Some v \<Rightarrow> v
      | None \<Rightarrow> \<lparr>packages = Some [], last_checked = None, stats = None\<rparr>)"

text \<open>\<open>versions.get("packages", {})\<close>\<close>

definition get_packages :: "versions \<Rightarrow> (string \<times> package_record) list" where
  "get_packages v = (case packages v of None \<Rightarrow> [] | Some ps \<Rightarrow> ps)"

definition image_extensions :: "string list" where
  "image_extensions = [''.jpg'', ''.jpeg'', ''.png'', ''.svg'']"

definition mint_releases :: "(string \<times> rat) list" where
  "mint_releases =
     [(''katya'', 11), (''lisa'', 12), (''maya'', 13), (''nadia'', 14), (''olivia'', 15),
      (''petra'', 16), (''qiana'', 17), (''rafaela'', 17.1), (''rebecca'', 17.2),
      (''rosa'', 17.3), (''sarah'', 18), (''serena'', 18.1), (''sonya'', 18.2),
      (''sylvia'', 18.3), (''tara'', 19), (''tessa'', 19.1), (''tina'', 19.2),
      (''tricia'', 19.3), (''ulyana'', 20), (''ulyssa'', 20.1), (''uma'', 20.2),
      (''una'', 20.3), (''vanessa'', 21), (''vera'', 21.1), (''victoria'', 21.2),
      (''virginia'', 21.3), (''wilma'', 22)]"

text \<open>\<open>os.path.splitext(file)[1]\<close> for a plain file name: from the last dot on, unless only
  dots come before it.\<close>

definition splitext_ext :: "string \<Rightarrow> string" where
  "splitext_ext f =
     (if CHR ''.'' \<notin> set f then []
      else let ext = CHR ''.'' # rev (takeWhile (\<lambda>c. c \<noteq> CHR ''.'') (rev f));
               stem = rev (tl (dropWhile (\<lambda>c. c \<noteq> CHR ''.'') (rev f)))
           in if \<exists>c \<in> set stem. c \<noteq> CHR ''.'' then ext else [])"

text \<open>The scan of the output directory in \<open>save_versions\<close>: the release with the highest
  number among the subdirectories, the number of image files and their total size.\<close>

fun latest_release ::
  "string list \<Rightarrow> string option \<times> rat \<Rightarrow> string option \<times> rat" where
  "latest_release [] acc = acc"
| "latest_release (item # items) (latest_name, latest_version) =
     (case map_of mint_releases (lower item) of
        Some v \<Rightarrow>
          if latest_version < v then latest_release items (Some (capitalize item), v)
          else latest_release items (latest_name, latest_version)
      | None \<Rightarrow> latest_release items (latest_name, latest_version))"

definition image_files :: "(string \<times> file_data) list \<Rightarrow> (string \<times> file_data) list" where
  "image_files fs = filter (\<lambda>(f, d). lower (splitext_ext f) \<in> set image_extensions) fs"

text \<open>\<open>round(total_size_bytes / (1024 * 1024), 1)\<close>: the quotient as a float, rounded to
  one decimal (ties to even on the float's exact value), as a float again.\<close>

definition size_mb :: "nat \<Rightarrow> py_float" where
  "size_mb total_size_bytes =
     (case round_binary64 (of_nat total_size_bytes / (1024 * 1024)) of
        Infinity \<Rightarrow> Infinity
      | Finite x \<Rightarrow> round_binary64 (of_int (round_half_even (x * 10)) / 10))"

definition save_versions :: "versions \<Rightarrow> world \<Rightarrow> world" where
  "save_versions data w =
     (let (now, w) = utcnow w;
          dirs = subdirs w OUTPUT_DIR;
          images = concat (map (\<lambda>(item, fs). image_files fs) dirs);
          (latest_name, latest_version) = latest_release (map fst dirs) (None, 0);
          data = data\<lparr>last_checked := Some now,
                      stats := Some \<lparr>total_packages = length (get_packages data),
                                      total_images = length images,
                                      total_size_mb =
                                        size_mb (sum_list (map (\<lambda>(f, d). length (content d)) images)),
                                      latest_mint_release = latest_name,
                                      latest_mint_version = latest_version\<rparr>\<rparr>
      in w\<lparr>versions_file := Some data, effects := effects w @ [Save]\<rparr>)"

subsection \<open>Archive Processor\<close>

text \<open>The walk over the extracted files. A \<open>copy2\<close> that raises ends the walk: the
  exception goes to the handler of \<open>download_and_extract\<close>, what was copied stays.\<close>

fun copy_files ::
  "string \<Rightarrow> string \<Rightarrow> string \<Rightarrow> xfile list \<Rightarrow> world \<Rightarrow> py_exception option \<times> world" where
  "copy_files package_name output_base combined_name [] w = (None, w)"
| "copy_files package_name output_base combined_name (f # files) w =
     (let file_lower = lower (file_name f)
      in if islink f then copy_files package_name output_base combined_name files w
         else if \<exists>ext \<in> set image_extensions. endswith file_lower ext
         then if contains file_lower ''screenshot''
              then copy_files package_name output_base combined_name files w
              else (case copy2 f output_base combined_name (file_name f) w of
                      Inl e \<Rightarrow> (Some e, w)
                    | Inr w' \<Rightarrow> copy_files package_name output_base combined_name files w')
         else if contains file_lower ''credits''
         then (case copy2 f output_base combined_name (''Credits_'' @ package_name) w of
                 Inl e \<Rightarrow> (Some e, w)
               | Inr w' \<Rightarrow> copy_files package_name output_base combined_name files w')
         else copy_files package_name output_base combined_name files w)"

text \<open>
  \<open>tarball_path = os.path.join(tmpdir, tarball_name)\<close> is \<open>tarball_name\<close> itself when that is
  absolute, and \<open>tmpdir/tarball_name\<close> otherwise. Where a relative name leads is followed
  component by component from the temporary directory, the last component being the name of
  the file in the directory the others lead to: an empty component and \<open>.\<close> stay, \<open>..\<close> goes
  up, every other component goes down; \<open>depth\<close> counts the levels below the temporary
  directory, and \<open>..\<close> at depth 0 leaves it. The temporary directory has a fresh
  random name, so a path that has left it is taken not to lead back into it. When the
  download goes through, the path could be opened and the file is where the path leads.
\<close>

fun path_components :: "string \<Rightarrow> string list" where
  "path_components [] = [[]]"
| "path_components (c # cs) =
     (if c = CHR ''/'' then [] # path_components cs
      else case path_components cs of
             [] \<Rightarrow> [[c]]
           | p # ps \<Rightarrow> (c # p) # ps)"

fun leaves_directory :: "string list \<Rightarrow> nat \<Rightarrow> bool" where
  "leaves_directory [] depth = False"
| "leaves_directory (c # cs) depth =
     (if c = [] \<or> c = ''.'' then leaves_directory cs depth
      else if c = ''..''
      then (case depth of 0 \<Rightarrow> True | Suc d \<Rightarrow> leaves_directory cs d)
      else leaves_directory cs (Suc depth))"

definition outside_tmpdir :: "string \<Rightarrow> bool" where
  "outside_tmpdir tarball_name =
     (prefix ''/'' tarball_name
      \<or> leaves_directory (butlast (path_components tarball_name)) 0)"

text \<open>\<open>open(tarball_path, 'wb')\<close> inside \<open>download_and_extract\<close>: the file is created in the
  workspace of the call, the first of \<open>temp\<close>, or outside the temporary directory.\<close>

definition open_tarball :: "string \<Rightarrow> world \<Rightarrow> world" where
  "open_tarball tarball_name w =
     (if outside_tmpdir tarball_name
      then w\<lparr>outside_files := outside_files w @ [tarball_name]\<rparr>
      else w\<lparr>temp := \<lparr>tarball_path = Some tarball_name, extract_dir = []\<rparr> # tl (temp w)\<rparr>)"

text \<open>\<open>tar.extractall(extract_dir)\<close>, as far as the workspace goes: the files that are then
  below the extraction directory.\<close>

definition extractall :: "xfile list \<Rightarrow> world \<Rightarrow> world" where
  "extractall files w =
     (case temp w of
        [] \<Rightarrow> w
      | space # spaces \<Rightarrow> w\<lparr>temp := space\<lparr>extract_dir := files\<rparr> # spaces\<rparr>)"

text \<open>The body of the \<open>try\<close>: download, extract, create the output directory, copy. The
  result is the exception that reached \<open>except Exception\<close>, if any. The workspace of the
  call is the first of \<open>temp\<close>; the archive is unpacked below it.\<close>

definition try_download_and_extract ::
  "tarball_info \<Rightarrow> string \<Rightarrow> world \<Rightarrow> py_exception option \<times> world" where
  "try_download_and_extract tarball_info output_base w =
     (let (package_name, version) = extract_version_info (name tarball_info);
          combined_name = normalize_package_name package_name;
          fetched = archive_at w (ticks w) (url tarball_info);
          w = w\<lparr>ticks := Suc (ticks w)\<rparr>
      in case fetched of
           Download_raises e \<Rightarrow> (Some e, w)
         | Write_raises e \<Rightarrow> (Some e, open_tarball (name tarball_info) w)
         | Extract_raises e \<Rightarrow>
             (Some e, (open_tarball (name tarball_info) w)
                        \<lparr>effects := effects w @ [Download (url tarball_info)]\<rparr>)
         | Extracted files \<Rightarrow>
             copy_files package_name output_base combined_name files
               (makedirs output_base combined_name
                  (extractall files
                     ((open_tarball (name tarball_info) w)
                        \<lparr>effects := effects w @ [Download (url tarball_info)]\<rparr>))))"

text \<open>\<open>with tempfile.TemporaryDirectory() as tmpdir\<close>: the workspace is created on entry and
  removed when the block is left, by \<open>return True\<close> and by \<open>return False\<close> alike. A file
  created outside the temporary directory is not removed with it.\<close>

definition download_and_extract :: "tarball_info \<Rightarrow> string \<Rightarrow> world \<Rightarrow> bool \<times> world" where
  "download_and_extract tarball_info output_base w =
     (let w = w\<lparr>temp := \<lparr>tarball_path = None, extract_dir = []\<rparr> # temp w\<rparr>;
          (raised, w) = try_download_and_extract tarball_info output_base w;
          w = w\<lparr>temp := tl (temp w)\<rparr>
      in (raised = None, w))"

subsection \<open>Listing Parser: the pages\<close>

definition BASE_URL :: string where
  "BASE_URL = ''http://packages.linuxmint.com/pool/main/m''"

text \<open>
  \<open>re.findall(pattern, page)\<close> for a pattern with one group: the matches are looked for from
  left to right, a match starts at the first position where the pattern matches, and the
  search goes on behind it. \<open>match_at\<close> says whether the pattern matches at the start of a
  text and gives the group and the length of the match; \<open>inside\<close> counts the characters of
  the last match that are still to be passed.
\<close>

fun findall :: "(string \<Rightarrow> (string \<times> nat) option) \<Rightarrow> nat \<Rightarrow> string \<Rightarrow> string list" where
  "findall match_at inside [] = []"
| "findall match_at inside (c # cs) =
     (case inside of
        Suc n \<Rightarrow> findall match_at n cs
      | 0 \<Rightarrow> (case match_at (c # cs) of
                None \<Rightarrow> findall match_at 0 cs
              | Some (found, len) \<Rightarrow> found # findall match_at (len - 1) cs))"

text \<open>
  The pattern \<open>href="(mint-backgrounds-[^"]+)/"\<close>. Behind the literal start, \<open>[^"]+\<close> can only
  cover characters of the run up to the next double quote, and the closing \<open>/"\<close> has to end
  at that quote: so the run is not the end of the page, ends with a slash and has a
  character before it, and the group is the run without its last slash.
\<close>

definition match_package_dir :: "string \<Rightarrow> (string \<times> nat) option" where
  \<open>match_package_dir s =
     (if prefix ''href="mint-backgrounds-'' s
      then let rest = drop (length ''href="mint-backgrounds-'') s;
               run = takeWhile (\<lambda>c. c \<noteq> CHR ''"'') rest
           in if length run < length rest \<and> 2 \<le> length run \<and> last run = CHR ''/''
              then Some (''mint-backgrounds-'' @ butlast run,
                         length ''href="mint-backgrounds-'' + length run + 1)
              else None
      else None)\<close>

text \<open>\<open>sorted(set(dirs))\<close> is \<open>sort (remdups dirs)\<close>, strings being compared character by
  character. An exception that leaves \<open>fetch_page\<close> leaves \<open>get_package_directories\<close>.\<close>

definition get_package_directories ::
  "(string \<Rightarrow> nat \<Rightarrow> outcome) \<Rightarrow> py_exception + string list" where
  "get_package_directories net =
     (case fst (fetch_page (net (BASE_URL @ ''/'')) (BASE_URL @ ''/'')) of
        Inl e \<Rightarrow> Inl e
      | Inr page \<Rightarrow> Inr (sort (remdups (findall match_package_dir 0 page))))"

text \<open>
  The pattern \<open>href="([^"]+\.tar\.gz)"\<close>: the run up to the next double quote ends with
  \<open>.tar.gz\<close> and has a character before that; the group is the whole run.
\<close>

definition match_tarball :: "string \<Rightarrow> (string \<times> nat) option" where
  \<open>match_tarball s =
     (if prefix ''href="'' s
      then let rest = drop (length ''href="'') s;
               run = takeWhile (\<lambda>c. c \<noteq> CHR ''"'') rest
           in if length run < length rest \<and> suffix ''.tar.gz'' run
                 \<and> length ''.tar.gz'' < length run
              then Some (run, length ''href="'' + length run + 1)
              else None
      else None)\<close>

text \<open>
  \<open>re.search(rf"{re.escape(tarball)}.*?([0-9.]+[MKG])", page, re.DOTALL)\<close>. With \<open>DOTALL\<close> the
  lazy \<open>.*?\<close> passes over anything, so a match that starts at a later occurrence of the
  name also starts at the first one: the match starts at the first occurrence of the name,
  and the group is taken at the first position behind it where a run of digits and dots is
  followed by M, K or G.
\<close>

fun after_first :: "string \<Rightarrow> string \<Rightarrow> string option" where
  "after_first needle [] = (if needle = [] then Some [] else None)"
| "after_first needle (c # cs) =
     (if prefix needle (c # cs) then Some (drop (length needle) (c # cs))
      else after_first needle cs)"

fun first_size :: "string \<Rightarrow> string option" where
  "first_size [] = None"
| "first_size (c # cs) =
     (case match_size (c # cs) of
        Some (num, unit) \<Rightarrow> Some (num @ [unit])
      | None \<Rightarrow> first_size cs)"

definition search_size :: "string \<Rightarrow> string \<Rightarrow> string option" where
  "search_size tarball page =
     (case after_first tarball page of None \<Rightarrow> None | Some rest \<Rightarrow> first_size rest)"

text \<open>The loop over the tarball names: \<open>token\<close> is \<open>size_str\<close>, and an exception of \<open>parse_size\<close>
  ends the loop and the function.\<close>

fun tarball_entries ::
  "string \<Rightarrow> string \<Rightarrow> string list \<Rightarrow> py_exception + tarball_info list" where
  "tarball_entries page package_dir [] = Inr []"
| "tarball_entries page package_dir (tarball # tarball_names) =
     (let token = (case search_size tarball page of Some m \<Rightarrow> m | None \<Rightarrow> ''0M'')
      in case parse_size token of
           Inl e \<Rightarrow> Inl e
         | Inr bytes \<Rightarrow>
             (case tarball_entries page package_dir tarball_names of
                Inl e \<Rightarrow> Inl e
              | Inr tarballs \<Rightarrow>
                  Inr (\<lparr>name = tarball,
                        url = BASE_URL @ ''/'' @ package_dir @ ''/'' @ tarball,
                        size_bytes = bytes, size_str = token\<rparr> # tarballs)))"

text \<open>\<open>for tarball in set(tarball_names)\<close>: Python does not fix the order in which a set is
  run through; \<open>set_order\<close> gives it, for the names found.\<close>

definition get_tarballs_for_package ::
  "(string list \<Rightarrow> string list) \<Rightarrow> (string \<Rightarrow> nat \<Rightarrow> outcome) \<Rightarrow> string
     \<Rightarrow> py_exception + tarball_info list" where
  "get_tarballs_for_package set_order net package_dir =
     (case fst (fetch_page (net (BASE_URL @ ''/'' @ package_dir @ ''/''))
                  (BASE_URL @ ''/'' @ package_dir @ ''/'')) of
        Inl e \<Rightarrow> Inl e
      | Inr page \<Rightarrow>
          tarball_entries page package_dir (set_order (findall match_tarball 0 page)))"

subsection \<open>Update Orchestrator\<close>

text \<open>
  The directory listing and the tarball listings are what \<open>get_package_directories\<close> and
  \<open>get_tarballs_for_package\<close> return in a run: \<open>package_dirs\<close> and \<open>tarballs_of\<close>. The
  inner loop over the tarballs of one directory, with \<open>new_packages\<close> and
  \<open>updated_packages\<close> as the accumulator:
\<close>

definition in_inventory :: "string \<Rightarrow> (string \<times> package_record) list \<Rightarrow> bool" where
  "in_inventory key existing_packages = (key \<in> set (map fst existing_packages))"

fun scan_tarballs ::
  "(string \<times> package_record) list \<Rightarrow> tarball_info list
     \<Rightarrow> tarball_info list \<times> tarball_info list \<Rightarrow> tarball_info list \<times> tarball_info list" where
  "scan_tarballs existing_packages [] acc = acc"
| "scan_tarballs existing_packages (tarball # tarballs) (new_packages, updated_packages) =
     (if size_bytes tarball < MIN_SIZE_BYTES
      then scan_tarballs existing_packages tarballs (new_packages, updated_packages)
      else let (package_name, version) = extract_version_info (name tarball)
           in if in_inventory (pkg_key (package_name, version)) existing_packages
              then scan_tarballs existing_packages tarballs (new_packages, updated_packages)
              else if package_name \<in> set (map (\<lambda>k. fst (extract_version_info k))
                                             (map fst existing_packages))
              then scan_tarballs existing_packages tarballs
                     (new_packages, updated_packages @ [tarball])
              else scan_tarballs existing_packages tarballs
                     (new_packages @ [tarball], updated_packages))"

fun scan_dirs ::
  "(string \<times> package_record) list \<Rightarrow> (string \<Rightarrow> tarball_info list) \<Rightarrow> string list
     \<Rightarrow> tarball_info list \<times> tarball_info list \<Rightarrow> tarball_info list \<times> tarball_info list" where
  "scan_dirs existing_packages tarballs_of [] acc = acc"
| "scan_dirs existing_packages tarballs_of (pkg_dir # package_dirs) acc =
     scan_dirs existing_packages tarballs_of package_dirs
       (scan_tarballs existing_packages (tarballs_of pkg_dir) acc)"

text \<open>The download loop over \<open>all_new\<close>: a record is stored when, and only when,
  \<open>download_and_extract\<close> returned \<open>True\<close>.\<close>

fun download_all ::
  "tarball_info list \<Rightarrow> (string \<times> package_record) list \<Rightarrow> world
     \<Rightarrow> (string \<times> package_record) list \<times> world" where
  "download_all [] existing_packages w = (existing_packages, w)"
| "download_all (tarball # all_new) existing_packages w =
     (let (ok, w) = download_and_extract tarball OUTPUT_DIR w
      in if ok
         then let (package_name, version) = extract_version_info (name tarball);
                  (now, w) = utcnow w
              in download_all all_new
                   (AList.update (pkg_key (package_name, version))
                      \<lparr>rec_name = name tarball, rec_version = version,
                       rec_size = size_str tarball, downloaded_at = now\<rparr>
                      existing_packages) w
         else download_all all_new existing_packages w)"

text \<open>The queue of a run: \<open>(new_packages, updated_packages)\<close>.\<close>

definition queued ::
  "string list \<Rightarrow> (string \<Rightarrow> tarball_info list) \<Rightarrow> world \<Rightarrow> tarball_info list \<times> tarball_info list" where
  "queued package_dirs tarballs_of w =
     scan_dirs (get_packages (load_versions w)) tarballs_of package_dirs ([], [])"

definition check_and_download ::
  "string list \<Rightarrow> (string \<Rightarrow> tarball_info list) \<Rightarrow> world \<Rightarrow> bool \<times> world" where
  "check_and_download package_dirs tarballs_of w =
     (let versions = load_versions w;
          existing_packages = get_packages versions;
          (new_packages, updated_packages) =
            scan_dirs existing_packages tarballs_of package_dirs ([], []);
          all_new = new_packages @ updated_packages
      in if all_new = [] then (False, save_versions versions w)
         else let w = makedirs_base OUTPUT_DIR w;
                  (existing_packages, w) = download_all all_new existing_packages w;
                  versions = versions\<lparr>packages := Some existing_packages\<rparr>
              in (True, save_versions versions w))"

text \<open>The loops of \<open>has_updates\<close> over listings that were fetched, with the early
  \<open>return True\<close>.\<close>

fun any_update :: "(string \<times> package_record) list \<Rightarrow> tarball_info list \<Rightarrow> bool" where
  "any_update existing_packages [] = False"
| "any_update existing_packages (tarball # tarballs) =
     (if size_bytes tarball < MIN_SIZE_BYTES then any_update existing_packages tarballs
      else if \<not> in_inventory (pkg_key (extract_version_info (name tarball))) existing_packages
      then True
      else any_update existing_packages tarballs)"

fun any_update_dirs ::
  "(string \<times> package_record) list \<Rightarrow> (string \<Rightarrow> tarball_info list) \<Rightarrow> string list \<Rightarrow> bool" where
  "any_update_dirs existing_packages tarballs_of [] = False"
| "any_update_dirs existing_packages tarballs_of (pkg_dir # package_dirs) =
     (if any_update existing_packages (tarballs_of pkg_dir) then True
      else any_update_dirs existing_packages tarballs_of package_dirs)"

definition has_updates ::
  "string list \<Rightarrow> (string \<Rightarrow> tarball_info list) \<Rightarrow> world \<Rightarrow> bool \<times> world" where
  "has_updates package_dirs tarballs_of w =
     (let versions = load_versions w;
          existing_packages = get_packages versions
      in (any_update_dirs existing_packages tarballs_of package_dirs, w))"

text \<open>
  \<open>has_updates\<close> as a whole, with the calls that fetch and parse the listings: what the
  network answers to the attempts at a URL is \<open>net\<close>. A directory is listed when the loop
  reaches it, so the early \<open>return True\<close> leaves the later directories unfetched, and an
  exception that leaves \<open>get_package_directories\<close> or \<open>get_tarballs_for_package\<close> leaves
  \<open>has_updates\<close>: there is no handler.
\<close>

fun scan_updates ::
  "(string \<Rightarrow> py_exception + tarball_info list) \<Rightarrow> (string \<times> package_record) list
     \<Rightarrow> string list \<Rightarrow> py_exception + bool" where
  "scan_updates tarballs_for existing_packages [] = Inr False"
| "scan_updates tarballs_for existing_packages (pkg_dir # package_dirs) =
     (case tarballs_for pkg_dir of
        Inl e \<Rightarrow> Inl e
      | Inr tarballs \<Rightarrow>
          if any_update existing_packages tarballs then Inr True
          else scan_updates tarballs_for existing_packages package_dirs)"

definition has_updates_fetching ::
  "(string list \<Rightarrow> string list) \<Rightarrow> (string \<Rightarrow> nat \<Rightarrow> outcome) \<Rightarrow> world
     \<Rightarrow> (py_exception + bool) \<times> world" where
  "has_updates_fetching set_order net w =
     (let versions = load_versions w;
          existing_packages = get_packages versions
      in case get_package_directories net of
           Inl e \<Rightarrow> (Inl e, w)
         | Inr package_dirs \<Rightarrow>
             (scan_updates (get_tarballs_for_package set_order net) existing_packages
                package_dirs, w))"

subsection \<open>Derived notions used in the statements\<close>

text \<open>The tests of the walk, as predicates on an extracted file.\<close>

definition is_image :: "xfile \<Rightarrow> bool" where
  "is_image f = (\<exists>ext \<in> set image_extensions. endswith (lower (file_name f)) ext)"

definition is_screenshot :: "xfile \<Rightarrow> bool" where
  "is_screenshot f = contains (lower (file_name f)) ''screenshot''"

definition is_credits :: "xfile \<Rightarrow> bool" where
  "is_credits f = contains (lower (file_name f)) ''credits''"

text \<open>The name under which the walk copies a file, if it copies it: the branches of the
  loop body of \<open>copy_files\<close>, read off as a function (lemma \<open>copy_files_step\<close>).\<close>

definition copied_as :: "string \<Rightarrow> xfile \<Rightarrow> string option" where
  "copied_as package_name f =
     (if islink f then None
      else if is_image f then (if is_screenshot f then None else Some (file_name f))
      else if is_credits f then Some (''Credits_'' @ package_name)
      else None)"

definition copy_events :: "string \<Rightarrow> string \<Rightarrow> string \<Rightarrow> xfile list \<Rightarrow> effect list" where
  "copy_events package_name base sub files =
     concat (map (\<lambda>f. case copied_as package_name f of
                          None \<Rightarrow> [] | Some dst \<Rightarrow> [Copy2 f base sub dst]) files)"

text \<open>The world once the tarball is downloaded and unpacked: the steps of
  \<open>download_and_extract\<close> up to \<open>extractall\<close>.\<close>

definition entered :: "tarball_info \<Rightarrow> xfile list \<Rightarrow> world \<Rightarrow> world" where
  "entered t files w =
     extractall files
       ((open_tarball (name t)
           (w\<lparr>temp := \<lparr>tarball_path = None, extract_dir = []\<rparr> # temp w,
              ticks := Suc (ticks w)\<rparr>))
          \<lparr>effects := effects w @ [Download (url t)]\<rparr>)"

text \<open>A listed tarball that a scan queues: large enough and not in the inventory.\<close>

definition fresh :: "(string \<times> package_record) list \<Rightarrow> tarball_info \<Rightarrow> bool" where
  "fresh existing_packages t =
     (MIN_SIZE_BYTES \<le> size_bytes t
      \<and> \<not> in_inventory (pkg_key (extract_version_info (name t))) existing_packages)"

text \<open>A tarball entry that counts as an update in world \<open>w\<close>: it has at least
  \<open>MIN_SIZE_BYTES\<close>, and its key is not a key of \<open>packages\<close> in the inventory file; there are
  no keys when the file does not exist or has no \<open>packages\<close>.\<close>

definition novel :: "world \<Rightarrow> tarball_info \<Rightarrow> bool" where
  "novel w tarball =
     (MIN_SIZE_BYTES \<le> size_bytes tarball
      \<and> fst (extract_version_info (name tarball)) @ ''_'' @ snd (extract_version_info (name tarball))
          \<notin> fst ` set (case versions_file w of
                           None \<Rightarrow> []
                         | Some v \<Rightarrow> (case packages v of None \<Rightarrow> [] | Some ps \<Rightarrow> ps)))"

subsection \<open>The scenario of the specification\<close>

text \<open>
  An empty inventory; the directory \<open>mint-backgrounds-nadia\<close> lists
  \<open>mint-backgrounds-nadia_1.4.tar.gz\<close> of size 16.5M, which holds \<open>wallpaper1.jpg\<close>, a
  symbolic link to it, \<open>screenshot-1.png\<close> and \<open>Credits\<close>. Further files and worlds serve
  as concrete inputs below.
\<close>

definition world_with :: "download \<Rightarrow> world" where
  "world_with d =
     \<lparr>versions_file = None, output_tree = [], temp = [], outside_files = [], effects = [],
      archive_at = (\<lambda>n u. d), utcnow_at = (\<lambda>n. ''2024-05-01T12:00:00''), ticks = 0\<rparr>"

definition wallpaper :: file_data where
  "wallpaper = \<lparr>content = ''JFIF'', mtime = 1355000000\<rparr>"

definition credits_text :: file_data where
  "credits_text = \<lparr>content = ''Photos by the community'', mtime = 1354000000\<rparr>"

definition wallpaper1_jpg :: xfile where
  "wallpaper1_jpg =
     \<lparr>file_name = ''wallpaper1.jpg'', islink = False, payload = wallpaper, copy2_error = None\<rparr>"

definition link_to_wallpaper1_jpg :: xfile where
  "link_to_wallpaper1_jpg =
     \<lparr>file_name = ''link-to-wallpaper1.jpg'', islink = True, payload = wallpaper,
      copy2_error = None\<rparr>"

definition screenshot_1_png :: xfile where
  "screenshot_1_png =
     \<lparr>file_name = ''screenshot-1.png'', islink = False, payload = wallpaper, copy2_error = None\<rparr>"

definition Credits_file :: xfile where
  "Credits_file =
     \<lparr>file_name = ''Credits'', islink = False, payload = credits_text, copy2_error = None\<rparr>"

definition broken_jpg :: xfile where
  "broken_jpg =
     \<lparr>file_name = ''broken.jpg'', islink = False, payload = wallpaper,
      copy2_error = Some OSError\<rparr>"

definition credits_jpg :: xfile where
  "credits_jpg =
     \<lparr>file_name = ''credits.jpg'', islink = False, payload = wallpaper, copy2_error = None\<rparr>"

definition scenario_files :: "xfile list" where
  "scenario_files = [wallpaper1_jpg, link_to_wallpaper1_jpg, screenshot_1_png, Credits_file]"

definition scenario_tarball :: tarball_info where
  "scenario_tarball =
     \<lparr>name = ''mint-backgrounds-nadia_1.4.tar.gz'',
      url = ''http://packages.linuxmint.com/pool/main/m/mint-backgrounds-nadia/mint-backgrounds-nadia_1.4.tar.gz'',
      size_bytes = 17301504, size_str = ''16.5M''\<rparr>"

definition small_tarball :: tarball_info where
  "small_tarball =
     \<lparr>name = ''mint-backgrounds-olivia_0.1.tar.gz'',
      url = ''http://packages.linuxmint.com/pool/main/m/mint-backgrounds-olivia/mint-backgrounds-olivia_0.1.tar.gz'',
      size_bytes = 5242880, size_str = ''5.0M''\<rparr>"


definition scenario_world :: world where
  "scenario_world = world_with (Extracted scenario_files)"

definition scenario_dirs :: "string list" where
  "scenario_dirs = [''mint-backgrounds-nadia'']"

definition scenario_listing :: "string \<Rightarrow> tarball_info list" where
  "scenario_listing pkg_dir = (if pkg_dir = ''mint-backgrounds-nadia'' then [scenario_tarball] else [])"

text \<open>The listing pages of the scenario, and a mirror that serves them.\<close>

definition scenario_index :: string where
  \<open>scenario_index = ''<a href="../">../</a> <a href="mint-backgrounds-nadia/">mint-backgrounds-nadia/</a> 05-Dec-2012 13:37 -''\<close>

definition nadia_page :: string where
  \<open>nadia_page = ''<a href="../">../</a> <a href="mint-backgrounds-nadia_1.4.dsc">mint-backgrounds-nadia_1.4.dsc</a> 05-Dec-2012 13:37 1.2K <a href="mint-backgrounds-nadia_1.4.tar.gz">mint-backgrounds-nadia_1.4.tar.gz</a> 05-Dec-2012 13:37 16.5M''\<close>

definition scenario_net :: "string \<Rightarrow> nat \<Rightarrow> outcome" where
  "scenario_net u attempt =
     (if u = ''http://packages.linuxmint.com/pool/main/m/'' then Returns scenario_index
      else if u = ''http://packages.linuxmint.com/pool/main/m/mint-backgrounds-nadia/''
      then Returns nadia_page
      else Raises (HTTPError 404))"

text \<open>A mirror with a second directory, \<open>mint-backgrounds-maya\<close>, that comes before
  \<open>mint-backgrounds-nadia\<close> and whose page is not valid UTF-8, and a mirror whose page for
  \<open>mint-backgrounds-nadia\<close> shows a second tarball with the size \<open>1.6.5M\<close>.\<close>

definition two_dirs_index :: string where
  \<open>two_dirs_index = ''<a href="../">../</a> <a href="mint-backgrounds-nadia/">mint-backgrounds-nadia/</a> 05-Dec-2012 13:37 - <a href="mint-backgrounds-maya/">mint-backgrounds-maya/</a> 23-May-2012 10:02 -''\<close>

definition undecodable_net :: "string \<Rightarrow> nat \<Rightarrow> outcome" where
  "undecodable_net u attempt =
     (if u = ''http://packages.linuxmint.com/pool/main/m/'' then Returns two_dirs_index
      else if u = ''http://packages.linuxmint.com/pool/main/m/mint-backgrounds-nadia/''
      then Returns nadia_page
      else Raises UnicodeDecodeError)"

text \<open>A mirror with a second directory, \<open>mint-backgrounds-olivia\<close>, that comes after
  \<open>mint-backgrounds-nadia\<close> and whose page is not valid UTF-8.\<close>

definition late_index :: string where
  \<open>late_index = ''<a href="mint-backgrounds-olivia/">mint-backgrounds-olivia/</a> 29-May-2013 09:12 - <a href="mint-backgrounds-nadia/">mint-backgrounds-nadia/</a> 05-Dec-2012 13:37 -''\<close>

definition late_failure_net :: "string \<Rightarrow> nat \<Rightarrow> outcome" where
  "late_failure_net u attempt =
     (if u = ''http://packages.linuxmint.com/pool/main/m/'' then Returns late_index
      else if u = ''http://packages.linuxmint.com/pool/main/m/mint-backgrounds-nadia/''
      then Returns nadia_page
      else Raises UnicodeDecodeError)"

definition garbled_page :: string where
  \<open>garbled_page = ''<a href="mint-backgrounds-nadia_1.4.tar.gz">mint-backgrounds-nadia_1.4.tar.gz</a> 05-Dec-2012 13:37 16.5M <a href="mint-backgrounds-nadia_1.5.tar.gz">mint-backgrounds-nadia_1.5.tar.gz</a> 06-Dec-2012 09:00 1.6.5M''\<close>

definition garbled_net :: "string \<Rightarrow> nat \<Rightarrow> outcome" where
  "garbled_net u attempt =
     (if u = ''http://packages.linuxmint.com/pool/main/m/'' then Returns scenario_index
      else if u = ''http://packages.linuxmint.com/pool/main/m/mint-backgrounds-nadia/''
      then Returns garbled_page
      else Raises (HTTPError 404))"

text \<open>The world of the scenario once \<open>nadia_1.4\<close> is in the inventory.\<close>

definition recorded_world :: world where
  "recorded_world =
     scenario_world\<lparr>versions_file :=
        Some \<lparr>packages = Some [(''nadia_1.4'',
                 \<lparr>rec_name = ''mint-backgrounds-nadia_1.4.tar.gz'', rec_version = ''1.4'',
                  rec_size = ''16.5M'', downloaded_at = ''2024-05-01T12:00:00''\<rparr>)],
              last_checked = Some ''2024-05-01T12:00:01'', stats = None\<rparr>\<rparr>"

section \<open>Properties\<close>

subsection \<open>String replacement\<close>

lemma str_replace_absent:
  "\<not> sublist old s \<Longrightarrow> old \<noteq> [] \<Longrightarrow> str_replace old new s = s"
proof (induction old new s rule: str_replace.induct)
  case (3 a old new c cs)
  then show ?case by (auto simp: sublist_Cons_right)
qed auto

lemma str_replace_prefix:
  "old \<noteq> [] \<Longrightarrow> str_replace old new (old @ s) = new @ str_replace old new s"
  by (cases old) auto

text \<open>An occurrence at the very end is the only one removed when no earlier position
  starts an occurrence, not even one that runs into the final occurrence.\<close>

lemma str_replace_at_end:
  assumes "old \<noteq> []" and "\<And>t. suffix t s \<Longrightarrow> t \<noteq> [] \<Longrightarrow> \<not> prefix old (t @ old)"
  shows "str_replace old [] (s @ old) = s"
  using assms
proof (induction s)
  case Nil
  then show ?case by (cases old) auto
next
  case (Cons c cs)
  obtain a old' where old: "old = a # old'" using Cons.prems(1) by (cases old) auto
  have np: "\<not> prefix old ((c # cs) @ old)"
    using Cons.prems(2)[of "c # cs"] by simp
  have ih: "str_replace old [] (cs @ old) = cs"
  proof (rule Cons.IH[OF Cons.prems(1)])
    fix t assume "suffix t cs" "t \<noteq> []"
    then show "\<not> prefix old (t @ old)"
      using Cons.prems(2)[of t] by (simp add: suffix_Cons)
  qed
  show ?case using np ih by (auto simp: old)
qed

lemma sublist_skip_foreign:
  "old \<noteq> [] \<Longrightarrow> hd old \<notin> set p \<Longrightarrow> sublist old (p @ r) \<Longrightarrow> sublist old r"
proof (induction p)
  case Nil
  then show ?case by simp
next
  case (Cons a p)
  then show ?case by (cases old) (auto simp: sublist_Cons_right)
qed

text \<open>\<open>.tar.gz\<close> has no proper prefix that is also a suffix, so an occurrence cannot
  overlap the one at the end.\<close>

lemma targz_no_straddle:
  assumes "\<not> sublist ''.tar.gz'' s" "suffix t s" "t \<noteq> []"
  shows "\<not> prefix ''.tar.gz'' (t @ ''.tar.gz'')"
proof
  assume p: "prefix ''.tar.gz'' (t @ ''.tar.gz'')"
  have np: "\<not> prefix ''.tar.gz'' t"
    using assms(1,2)
    by (meson prefix_order.dual_order.trans sublist_altdef' suffix_def sublist_def prefix_def)
  with p obtain us where "''.tar.gz'' = t @ us" "prefix us ''.tar.gz''"
    by (auto simp: prefix_append)
  with assms(3) np show False
    by (auto simp: Cons_eq_append_conv)
qed

lemma split_first_at:
  assumes "sep \<notin> set n"
  shows "split_first sep (n @ sep # v) = (n, v)"
proof -
  from assms have "\<forall>x\<in>set n. x \<noteq> sep" by auto
  then have "takeWhile (\<lambda>c. c \<noteq> sep) (n @ sep # v) = n"
    and "dropWhile (\<lambda>c. c \<noteq> sep) (n @ sep # v) = sep # v"
    by simp_all
  then show ?thesis by (simp add: split_first_def)
qed

lemma strip_family_name:
  assumes "\<not> contains body ''.tar.gz''" and "\<not> contains body ''mint-backgrounds-''"
  shows "str_replace ''mint-backgrounds-'' ''''
           (str_replace ''.tar.gz'' '''' (''mint-backgrounds-'' @ body @ ''.tar.gz'')) = body"
proof -
  let ?P = "''mint-backgrounds-''" and ?S = "''.tar.gz''"
  have nosub: "\<not> sublist ?S (?P @ body)"
    using assms(1) sublist_skip_foreign[of ?S ?P body] by (auto simp: contains_def)
  have "str_replace ?S '''' ((?P @ body) @ ?S) = ?P @ body"
    by (rule str_replace_at_end) (use targz_no_straddle[OF nosub] in auto)
  moreover have "str_replace ?P '''' (?P @ body) = '''' @ str_replace ?P '''' body"
    by (rule str_replace_prefix) simp
  moreover have "str_replace ?P '''' body = body"
    using assms(2) by (intro str_replace_absent) (auto simp: contains_def)
  ultimately show ?thesis by simp
qed

subsection \<open>Version keys\<close>

text \<open>
  Claim C5, as the code has it. For a file name \<open>mint-backgrounds-<name>_<version>.tar.gz\<close>
  in which \<open>name\<close> has no underscore and \<open><name>_<version>\<close> contains neither \<open>.tar.gz\<close>
  nor \<open>mint-backgrounds-\<close>, \<open>extract_version_info\<close> returns \<open>(name, version)\<close>; for
  \<open>mint-backgrounds-<name>.tar.gz\<close> with such a \<open>name\<close> it returns \<open>(name, "unknown")\<close>.
  The side conditions are needed because the suffix and the prefix are removed with
  \<open>str.replace\<close>, wherever they occur, and the split is at the first underscore.
\<close>

theorem extract_version_info_form:
  "(CHR ''_'' \<notin> set pkg \<and> \<not> contains (pkg @ ''_'' @ ver) ''.tar.gz''
      \<and> \<not> contains (pkg @ ''_'' @ ver) ''mint-backgrounds-''
    \<longrightarrow> extract_version_info (''mint-backgrounds-'' @ pkg @ ''_'' @ ver @ ''.tar.gz'')
          = (pkg, ver))
   \<and> (CHR ''_'' \<notin> set pkg \<and> \<not> contains pkg ''.tar.gz''
      \<and> \<not> contains pkg ''mint-backgrounds-''
    \<longrightarrow> extract_version_info (''mint-backgrounds-'' @ pkg @ ''.tar.gz'') = (pkg, ''unknown''))"
proof (intro conjI impI)
  assume h: "CHR ''_'' \<notin> set pkg \<and> \<not> contains (pkg @ ''_'' @ ver) ''.tar.gz''
      \<and> \<not> contains (pkg @ ''_'' @ ver) ''mint-backgrounds-''"
  have "str_replace ''mint-backgrounds-'' '''' (str_replace ''.tar.gz'' ''''
          (''mint-backgrounds-'' @ (pkg @ ''_'' @ ver) @ ''.tar.gz'')) = pkg @ ''_'' @ ver"
    using h by (intro strip_family_name) auto
  then show "extract_version_info (''mint-backgrounds-'' @ pkg @ ''_'' @ ver @ ''.tar.gz'')
          = (pkg, ver)"
    using h split_first_at[of "CHR ''_''" pkg ver]
    by (simp add: extract_version_info_def)
next
  assume h: "CHR ''_'' \<notin> set pkg \<and> \<not> contains pkg ''.tar.gz''
      \<and> \<not> contains pkg ''mint-backgrounds-''"
  have "str_replace ''mint-backgrounds-'' '''' (str_replace ''.tar.gz'' ''''
          (''mint-backgrounds-'' @ pkg @ ''.tar.gz'')) = pkg"
    using h by (intro strip_family_name) auto
  then show "extract_version_info (''mint-backgrounds-'' @ pkg @ ''.tar.gz'') = (pkg, ''unknown'')"
    using h by (simp add: extract_version_info_def)
qed

theorem extract_version_info_form_witness:
  "extract_version_info ''mint-backgrounds-nadia_1.4.tar.gz'' = (''nadia'', ''1.4'')
   \<and> extract_version_info ''mint-backgrounds-nadia.tar.gz'' = (''nadia'', ''unknown'')"
  using extract_version_info_form[of "''nadia''" "''1.4''"]
  by (simp add: contains_def sublist_Cons_right)

text \<open>
  Without the side conditions the pair is not returned: a version that itself contains
  \<open>.tar.gz\<close> loses it, a name with an underscore is cut at its first underscore, and a name
  that contains the family prefix loses it.
\<close>

theorem extract_version_info_form_counterexample:
  "extract_version_info (''mint-backgrounds-'' @ ''nadia'' @ ''_'' @ ''1.tar.gz'' @ ''.tar.gz'')
     \<noteq> (''nadia'', ''1.tar.gz'')
   \<and> extract_version_info (''mint-backgrounds-'' @ ''xfce_extra'' @ ''_'' @ ''1.0'' @ ''.tar.gz'')
     \<noteq> (''xfce_extra'', ''1.0'')
   \<and> extract_version_info (''mint-backgrounds-'' @ ''my-mint-backgrounds-x'' @ ''_'' @ ''2'' @ ''.tar.gz'')
     \<noteq> (''my-mint-backgrounds-x'', ''2'')"
  by (simp add: extract_version_info_def split_first_def)

lemma package_name_no_underscore: "CHR ''_'' \<notin> set (fst (extract_version_info f))"
  by (auto simp: extract_version_info_def split_first_def Let_def dest: set_takeWhileD)

lemma key_split:
  assumes "CHR ''_'' \<notin> set n"
  shows "split_first (CHR ''_'') (pkg_key (n, v)) = (n, v)"
  using split_first_at[OF assms, of v] by (simp add: pkg_key_def)

lemma pkg_key_inject:
  assumes "pkg_key (extract_version_info f) = pkg_key (extract_version_info g)"
  shows "extract_version_info f = extract_version_info g"
proof -
  have "split_first (CHR ''_'') (pkg_key (extract_version_info f))
      = split_first (CHR ''_'') (pkg_key (extract_version_info g))"
    using assms by simp
  then show ?thesis
    using key_split[OF package_name_no_underscore[of f], of "snd (extract_version_info f)"]
          key_split[OF package_name_no_underscore[of g], of "snd (extract_version_info g)"]
    by simp
qed

text \<open>
  Claim C10, as the code has it. The package name returned by \<open>extract_version_info\<close>
  never contains an underscore; two file names with the same key have the same
  (package name, version) pair; and applying \<open>extract_version_info\<close> to a stored key gives
  back the pair that formed it, when the key contains neither \<open>.tar.gz\<close> nor
  \<open>mint-backgrounds-\<close> (the function removes them from whatever string it is given).
\<close>

theorem version_key_invariant:
  "CHR ''_'' \<notin> set (fst (extract_version_info f))
   \<and> (pkg_key (extract_version_info f) = pkg_key (extract_version_info g)
        \<longrightarrow> extract_version_info f = extract_version_info g)
   \<and> (\<not> contains (pkg_key (extract_version_info f)) ''.tar.gz''
        \<and> \<not> contains (pkg_key (extract_version_info f)) ''mint-backgrounds-''
        \<longrightarrow> extract_version_info (pkg_key (extract_version_info f)) = extract_version_info f)"
proof (intro conjI impI)
  show "CHR ''_'' \<notin> set (fst (extract_version_info f))"
    by (rule package_name_no_underscore)
next
  assume "pkg_key (extract_version_info f) = pkg_key (extract_version_info g)"
  then show "extract_version_info f = extract_version_info g"
    by (rule pkg_key_inject)
next
  let ?k = "pkg_key (extract_version_info f)"
  assume h: "\<not> contains ?k ''.tar.gz'' \<and> \<not> contains ?k ''mint-backgrounds-''"
  have "str_replace ''.tar.gz'' '''' ?k = ?k"
    using h by (intro str_replace_absent) (auto simp: contains_def)
  moreover have "str_replace ''mint-backgrounds-'' '''' ?k = ?k"
    using h by (intro str_replace_absent) (auto simp: contains_def)
  moreover have "CHR ''_'' \<in> set ?k" by (simp add: pkg_key_def)
  ultimately have "extract_version_info ?k = split_first (CHR ''_'') ?k"
    by (simp add: extract_version_info_def)
  then show "extract_version_info ?k = extract_version_info f"
    using key_split[OF package_name_no_underscore[of f], of "snd (extract_version_info f)"]
    by simp
qed

theorem version_key_invariant_witness:
  "pkg_key (extract_version_info ''mint-backgrounds-nadia_1.4.tar.gz'') = ''nadia_1.4''
   \<and> pkg_key (extract_version_info ''nadia_1.4.tar.gz'') = ''nadia_1.4''
   \<and> extract_version_info ''nadia_1.4.tar.gz'' = extract_version_info ''mint-backgrounds-nadia_1.4.tar.gz''
   \<and> extract_version_info ''nadia_1.4'' = (''nadia'', ''1.4'')"
proof -
  have e: "extract_version_info ''mint-backgrounds-nadia_1.4.tar.gz'' = (''nadia'', ''1.4'')"
    by (simp add: extract_version_info_def split_first_def)
  have k: "pkg_key (extract_version_info ''mint-backgrounds-nadia_1.4.tar.gz'') = ''nadia_1.4''"
    by (simp add: e pkg_key_def)
  have k': "pkg_key (extract_version_info ''nadia_1.4.tar.gz'') = ''nadia_1.4''"
    by (simp add: extract_version_info_def split_first_def pkg_key_def)
  have n: "\<not> contains ''nadia_1.4'' ''.tar.gz'' \<and> \<not> contains ''nadia_1.4'' ''mint-backgrounds-''"
    by (simp add: contains_def sublist_Cons_right)
  from version_key_invariant[of "''nadia_1.4.tar.gz''" "''mint-backgrounds-nadia_1.4.tar.gz''"]
  have "extract_version_info ''nadia_1.4.tar.gz'' = extract_version_info ''mint-backgrounds-nadia_1.4.tar.gz''"
    using k k' by simp
  moreover
  from version_key_invariant[of "''mint-backgrounds-nadia_1.4.tar.gz''" "''''"]
  have "extract_version_info ''nadia_1.4'' = (''nadia'', ''1.4'')"
    using k n e by simp
  ultimately show ?thesis using k k' by simp
qed

text \<open>
  A name from which the two removals leave \<open>.tar.gz\<close> behind: the key is formed with the
  package name \<open>x.tar.gz\<close>, and \<open>extract_version_info\<close> applied to the key gives \<open>x\<close>.
\<close>

theorem version_key_invariant_counterexample:
  "fst (extract_version_info (pkg_key (extract_version_info ''x.tar.tar.gz.gz_1.tar.gz'')))
     \<noteq> fst (extract_version_info ''x.tar.tar.gz.gz_1.tar.gz'')"
  by (simp add: extract_version_info_def split_first_def pkg_key_def)

subsection \<open>Size tokens\<close>

lemma parse_size_16_5M: "parse_size ''16.5M'' = Inr 17301504"
  by code_simp

lemma parse_size_500K: "parse_size ''500K'' = Inr 512000"
  by code_simp

lemma parse_size_empty: "parse_size '''' = Inr 0"
  by (simp add: parse_size_def)

lemma parse_size_garbage: "parse_size ''garbage'' = Inr 0"
  by code_simp

lemma match_size_other_unit:
  assumes "\<forall>c\<in>set num. is_numchar c" "\<not> is_numchar u" "u \<notin> set ''MKG''"
  shows "match_size (num @ u # rest) = None"
proof -
  have "dropWhile is_numchar (num @ u # rest) = u # rest"
    using assms(1,2) by simp
  then show ?thesis using assms(3) by (simp add: match_size_def)
qed

lemma match_size_no_unit:
  assumes "\<forall>c\<in>set num. is_numchar c"
  shows "match_size num = None"
proof -
  have dw: "dropWhile is_numchar num = []" using assms by simp
  show ?thesis unfolding match_size_def Let_def dw by simp
qed

lemma parse_size_no_match: "match_size s = None \<Longrightarrow> parse_size s = Inr 0"
  by (simp add: parse_size_def)

text \<open>Whole numbers: an integer below \<open>2^53\<close> times a power of two is a binary64 value,
  so both roundings leave it as it is.\<close>

lemma floor_log2_of_int: "0 < m \<Longrightarrow> floor_log2 (of_int m) = bitlen m - 1"
  by (simp add: floor_log2_def)

lemma round_half_even_of_int: "round_half_even (of_int m) = m"
  by (simp add: round_half_even_def)

lemma bitlen_le_53:
  assumes "0 < m" "m < 2 ^ 53"
  shows "bitlen m \<le> 53"
proof (rule ccontr)
  assume "\<not> bitlen m \<le> 53"
  then have "53 \<le> nat (bitlen m - 1)" by simp
  then have "(2::int) ^ 53 \<le> 2 ^ nat (bitlen m - 1)"
    by (intro power_increasing) simp_all
  also have "\<dots> \<le> m" using bitlen_bounds[OF assms(1)] by simp
  finally show False using assms(2) by simp
qed

lemma pow2_split:
  assumes "e + int d = int k"
  shows "pow2 e * 2 ^ d = 2 ^ k"
proof (cases "0 \<le> e")
  case True
  then have "k = nat e + d" using assms by simp
  then show ?thesis using True by (simp add: pow2_def power_add)
next
  case False
  then have "d = k + nat (- e)" using assms by simp
  then show ?thesis using False by (simp add: pow2_def power_add)
qed

lemma pow2_pos: "0 < pow2 e"
  by (simp add: pow2_def)

lemma round_binary64_exact:
  assumes "0 < m" "m < 2 ^ 53" "k \<le> 970"
  shows "round_binary64 (of_int m * 2 ^ k) = Finite (of_int m * 2 ^ k)"
proof -
  let ?b = "bitlen m"
  define q :: rat where "q = of_int m * 2 ^ k"
  have b: "1 \<le> ?b" "?b \<le> 53"
    using assms(1) bitlen_le_53[OF assms(1,2)] by (simp_all add: bitlen_alt_def)
  have pos: "0 < m * 2 ^ k" using assms(1) by simp
  have qi: "q = of_int (m * 2 ^ k)" by (simp add: q_def)
  have fl: "floor_log2 q = ?b + int k - 1"
    unfolding qi floor_log2_of_int[OF pos] using assms(1) by simp
  define e where "e = ?b + int k - 53"
  define d where "d = nat (53 - ?b)"
  have ed: "e + int d = int k" using b by (simp add: e_def d_def)
  have mx: "max (floor_log2 q - 52) (- 1074) = e"
    unfolding fl using b by (simp add: e_def)
  have qd: "q = of_int (m * 2 ^ d) * pow2 e"
    using pow2_split[OF ed] by (simp add: q_def mult.assoc mult.commute)
  then have qe: "q / pow2 e = of_int (m * 2 ^ d)"
    using pow2_pos[of e] by (simp add: field_simps)
  have r: "of_int (round_half_even (q / pow2 e)) * pow2 e = q"
    unfolding qe round_half_even_of_int using qd by simp
  have nz: "q \<noteq> 0" using assms(1) by (simp add: q_def)
  have small: "\<not> 1024 \<le> floor_log2 q"
    unfolding fl using b assms(3) by simp
  have "round_binary64 q = Finite q"
    unfolding round_binary64_def Let_def mx r using nz small by simp
  then show ?thesis by (simp only: q_def)
qed

lemma round_binary64_nat:
  assumes "n < 2 ^ 53" "k \<le> 970"
  shows "round_binary64 (of_nat n * 2 ^ k) = Finite (of_nat n * 2 ^ k)"
proof (cases "n = 0")
  case True
  then show ?thesis by (simp add: round_binary64_def)
next
  case False
  then have "0 < int n" "int n < 2 ^ 53" using assms(1) by simp_all
  from round_binary64_exact[OF this assms(2)] show ?thesis by simp
qed

lemma digit_is_numchar: "is_digit c \<Longrightarrow> is_numchar c \<and> c \<noteq> CHR ''.''"
  by (auto simp: is_digit_def is_numchar_def)

lemma decimal_value_digits:
  assumes "ds \<noteq> []" "\<forall>c\<in>set ds. is_digit c"
  shows "decimal_value ds = Some (of_nat (digits_val ds))"
proof -
  have "\<forall>c\<in>set ds. c \<noteq> CHR ''.''" using assms(2) digit_is_numchar by blast
  then have tw: "takeWhile (\<lambda>c. c \<noteq> CHR ''.'') ds = ds"
    and dw: "dropWhile (\<lambda>c. c \<noteq> CHR ''.'') ds = []"
    by simp_all
  show ?thesis unfolding decimal_value_def Let_def tw dw using assms(1) by simp
qed

lemma match_size_digits:
  assumes "ds \<noteq> []" "\<forall>c\<in>set ds. is_digit c" "u \<in> set ''MKG''"
  shows "match_size (ds @ u # rest) = Some (ds, u)"
proof -
  have n: "\<forall>c\<in>set ds. is_numchar c" using assms(2) digit_is_numchar by blast
  have u: "\<not> is_numchar u" using assms(3) by (auto simp: is_numchar_def)
  have tw: "takeWhile is_numchar (ds @ u # rest) = ds"
    and dw: "dropWhile is_numchar (ds @ u # rest) = u # rest"
    using n u by simp_all
  show ?thesis unfolding match_size_def Let_def tw dw using assms(1,3) by simp
qed

lemma parse_size_whole:
  assumes "ds \<noteq> []" "\<forall>c\<in>set ds. is_digit c" "digits_val ds < 2 ^ 53"
    and "map_of multipliers u = Some (2 ^ k)" "k \<le> 970"
  shows "parse_size (ds @ u # rest) = Inr (int (digits_val ds) * 2 ^ k)"
proof -
  have u: "u \<in> set ''MKG''"
    using assms(4) by (auto simp: multipliers_def split: if_splits)
  have f: "float_of_str ds = Inr (Finite (of_nat (digits_val ds)))"
    using decimal_value_digits[OF assms(1,2)] round_binary64_nat[OF assms(3), of 0]
    by (simp add: float_of_str_def)
  have "float_mul (Finite (of_nat (digits_val ds))) (2 ^ k)
      = Finite (of_nat (digits_val ds) * 2 ^ k)"
    using round_binary64_nat[OF assms(3,5)] by simp
  also have "(of_nat (digits_val ds) * 2 ^ k :: rat) = of_int (int (digits_val ds) * 2 ^ k)"
    by simp
  finally have m: "int_of_float (float_mul (Finite (of_nat (digits_val ds))) (2 ^ k))
      = Inr (int (digits_val ds) * 2 ^ k)"
    by (simp only: int_of_float.simps floor_of_int)
  show ?thesis
    using m by (simp add: parse_size_def match_size_digits[OF assms(1,2) u] f assms(4))
qed

lemma multipliers_powers:
  "map_of multipliers (CHR ''K'') = Some (2 ^ 10)"
  "map_of multipliers (CHR ''M'') = Some (2 ^ 20)"
  "map_of multipliers (CHR ''G'') = Some (2 ^ 30)"
  by (simp_all add: multipliers_def)

lemma parse_size_whole_units:
  assumes "ds \<noteq> []" "\<forall>c\<in>set ds. is_digit c" "digits_val ds < 2 ^ 53"
  shows "parse_size (ds @ CHR ''K'' # rest) = Inr (int (digits_val ds) * 1024)"
    and "parse_size (ds @ CHR ''M'' # rest) = Inr (int (digits_val ds) * 1024 ^ 2)"
    and "parse_size (ds @ CHR ''G'' # rest) = Inr (int (digits_val ds) * 1024 ^ 3)"
  using parse_size_whole[OF assms multipliers_powers(1), of rest]
    parse_size_whole[OF assms multipliers_powers(2), of rest]
    parse_size_whole[OF assms multipliers_powers(3), of rest]
  by simp_all

text \<open>
  Claim C6, as the code has it. The multipliers are K = 1024, M = 1024^2, G = 1024^3: a
  token of decimal digits (a whole number below \<open>2^53\<close>) followed by K, M or G gives the
  number times the multiplier, whatever follows the unit letter.
  \<open>parse_size("16.5M")\<close> is 16.5 \<times> 1024^2 (an integer, so rounding leaves it),
  \<open>parse_size("500K")\<close> is 500 \<times> 1024, \<open>parse_size("")\<close> and \<open>parse_size("garbage")\<close> are 0.
  A numeric part followed by any character other than K, M or G, or by nothing, gives 0:
  the pattern admits no other unit, so the default multiplier 1 of
  \<open>multipliers.get(unit, 1)\<close> is never used.
\<close>

theorem parse_size_units:
  "(ds \<noteq> [] \<and> (\<forall>c\<in>set ds. is_digit c) \<and> digits_val ds < 2 ^ 53
      \<longrightarrow> parse_size (ds @ CHR ''K'' # rest) = Inr (int (digits_val ds) * 1024)
        \<and> parse_size (ds @ CHR ''M'' # rest) = Inr (int (digits_val ds) * 1024 ^ 2)
        \<and> parse_size (ds @ CHR ''G'' # rest) = Inr (int (digits_val ds) * 1024 ^ 3))
   \<and> parse_size ''16.5M'' = Inr 17301504 \<and> (17301504 :: rat) = 16.5 * 1024 ^ 2
   \<and> parse_size ''500K'' = Inr (500 * 1024)
   \<and> parse_size '''' = Inr 0
   \<and> parse_size ''garbage'' = Inr 0
   \<and> ((\<forall>c\<in>set num. is_numchar c) \<and> \<not> is_numchar u \<and> u \<notin> set ''MKG''
        \<longrightarrow> parse_size (num @ u # rest) = Inr 0)
   \<and> ((\<forall>c\<in>set num. is_numchar c) \<longrightarrow> parse_size num = Inr 0)"
proof -
  have whole: "ds \<noteq> [] \<and> (\<forall>c\<in>set ds. is_digit c) \<and> digits_val ds < 2 ^ 53
      \<longrightarrow> parse_size (ds @ CHR ''K'' # rest) = Inr (int (digits_val ds) * 1024)
        \<and> parse_size (ds @ CHR ''M'' # rest) = Inr (int (digits_val ds) * 1024 ^ 2)
        \<and> parse_size (ds @ CHR ''G'' # rest) = Inr (int (digits_val ds) * 1024 ^ 3)"
    using parse_size_whole_units[of ds rest] by blast
  have exact: "(17301504 :: rat) = 16.5 * 1024 ^ 2" by simp
  have k500: "parse_size ''500K'' = Inr (500 * 1024)" using parse_size_500K by simp
  have other: "(\<forall>c\<in>set num. is_numchar c) \<and> \<not> is_numchar u \<and> u \<notin> set ''MKG''
        \<longrightarrow> parse_size (num @ u # rest) = Inr 0"
    using match_size_other_unit[of num u rest] parse_size_no_match by blast
  have none: "(\<forall>c\<in>set num. is_numchar c) \<longrightarrow> parse_size num = Inr 0"
    using match_size_no_unit[of num] parse_size_no_match by blast
  show ?thesis
    by (intro conjI whole exact k500 other none parse_size_16_5M parse_size_empty
          parse_size_garbage)
qed

theorem parse_size_units_witness:
  "parse_size ''20M (13:37)'' = Inr (20 * 1024 ^ 2) \<and> parse_size ''12B'' = Inr 0
   \<and> parse_size ''2.5 MB'' = Inr 0 \<and> parse_size ''42'' = Inr 0"
proof -
  have d: "\<forall>c\<in>set ''12''. is_numchar c" "\<forall>c\<in>set ''2.5''. is_numchar c"
    "\<forall>c\<in>set ''42''. is_numchar c" "\<not> is_numchar (CHR ''B'')" "\<not> is_numchar (CHR '' '')"
    by (simp_all add: is_numchar_def)
  have w: "''20'' \<noteq> [] \<and> (\<forall>c\<in>set ''20''. is_digit c) \<and> digits_val ''20'' < 2 ^ 53"
    by (simp add: is_digit_def digits_val_def digit_val_def)
  from parse_size_units[of "''20''" "'' (13:37)''" "''12''" "CHR ''B''"]
  have "''20'' \<noteq> [] \<and> (\<forall>c\<in>set ''20''. is_digit c) \<and> digits_val ''20'' < 2 ^ 53
      \<longrightarrow> parse_size (''20'' @ CHR ''K'' # '' (13:37)'') = Inr (int (digits_val ''20'') * 1024)
        \<and> parse_size (''20'' @ CHR ''M'' # '' (13:37)'') = Inr (int (digits_val ''20'') * 1024 ^ 2)
        \<and> parse_size (''20'' @ CHR ''G'' # '' (13:37)'') = Inr (int (digits_val ''20'') * 1024 ^ 3)"
    by (elim conjE)
  with w have "parse_size (''20'' @ CHR ''M'' # '' (13:37)'') = Inr (int (digits_val ''20'') * 1024 ^ 2)"
    by blast
  then have z: "parse_size ''20M (13:37)'' = Inr (20 * 1024 ^ 2)"
    by (simp add: digits_val_def digit_val_def)
  from parse_size_units[of "''20''" "''''" "''12''" "CHR ''B''"]
  have "(\<forall>c\<in>set ''12''. is_numchar c) \<and> \<not> is_numchar (CHR ''B'') \<and> CHR ''B'' \<notin> set ''MKG''
          \<longrightarrow> parse_size (''12'' @ CHR ''B'' # '''') = Inr 0"
    by (elim conjE)
  then have a: "parse_size ''12B'' = Inr 0" using d by simp
  from parse_size_units[of "''20''" "''MB''" "''2.5''" "CHR '' ''"]
  have "(\<forall>c\<in>set ''2.5''. is_numchar c) \<and> \<not> is_numchar (CHR '' '') \<and> CHR '' '' \<notin> set ''MKG''
          \<longrightarrow> parse_size (''2.5'' @ CHR '' '' # ''MB'') = Inr 0"
    by (elim conjE)
  then have b: "parse_size ''2.5 MB'' = Inr 0" using d by simp
  from parse_size_units[of "''20''" "''''" "''42''" "CHR ''x''"]
  have "(\<forall>c\<in>set ''42''. is_numchar c) \<longrightarrow> parse_size ''42'' = Inr 0"
    by (elim conjE)
  then have c: "parse_size ''42'' = Inr 0" using d by simp
  show ?thesis using z a b c by simp
qed

text \<open>The token \<open>500T\<close>: the claim has 500 bytes, the code returns 0.\<close>

theorem parse_size_units_counterexample:
  "parse_size ''500T'' = Inr 0 \<and> parse_size ''500T'' \<noteq> Inr 500"
  by (simp add: parse_size_def match_size_def is_numchar_def)

subsection \<open>HTTP Fetcher\<close>

lemma fetch_attempts_no_raise:
  assumes "\<forall>i < attempt + remaining. \<forall>e. net i = Raises e
             \<longrightarrow> (\<exists>code. e = HTTPError code) \<or> e = URLError"
  shows "\<exists>body. fst (fetch_attempts net page attempt remaining evs) = Inr body"
  using assms
proof (induction remaining arbitrary: attempt evs)
  case 0
  then show ?case by simp
next
  case (Suc remaining)
  have ih: "\<exists>body. fst (fetch_attempts net page (Suc attempt) remaining evs') = Inr body" for evs'
    by (rule Suc.IH) (use Suc.prems in simp)
  show ?case
  proof (cases "net attempt")
    case (Returns body)
    then show ?thesis by simp
  next
    case (Raises e)
    have "attempt < attempt + Suc remaining" by simp
    with Suc.prems Raises have "(\<exists>code. e = HTTPError code) \<or> e = URLError" by blast
    then show ?thesis
      using Raises ih by (auto simp: Let_def)
  qed
qed

lemma retryable_cases:
  "retryable r \<Longrightarrow>
     r = Raises (HTTPError 429) \<or> r = Raises (HTTPError 503) \<or> r = Raises URLError"
  by (simp add: retryable_def)

lemma fetch_page_exhausted:
  assumes "\<forall>i<MAX_RETRIES. retryable (net i)"
  shows "fst (fetch_page net page) = Inr ''''"
    and "requests (snd (fetch_page net page)) = MAX_RETRIES"
    and "backoffs (snd (fetch_page net page)) = map (\<lambda>i. RETRY_DELAY * (i + 1)) [0..<MAX_RETRIES]
       \<or> backoffs (snd (fetch_page net page))
            = map (\<lambda>i. RETRY_DELAY * (i + 1)) [0..<MAX_RETRIES - 1]"
proof -
  have r: "retryable (net 0)" "retryable (net 1)" "retryable (net 2)"
    using assms by (simp_all add: MAX_RETRIES_def)
  note c = retryable_cases[OF r(1)] retryable_cases[OF r(2)] retryable_cases[OF r(3)]
  show "fst (fetch_page net page) = Inr ''''"
    using c by (auto simp: fetch_page_def MAX_RETRIES_def eval_nat_numeral Let_def)
  show "requests (snd (fetch_page net page)) = MAX_RETRIES"
    using c by (auto simp: fetch_page_def MAX_RETRIES_def eval_nat_numeral Let_def requests_def)
  show "backoffs (snd (fetch_page net page)) = map (\<lambda>i. RETRY_DELAY * (i + 1)) [0..<MAX_RETRIES]
       \<or> backoffs (snd (fetch_page net page))
            = map (\<lambda>i. RETRY_DELAY * (i + 1)) [0..<MAX_RETRIES - 1]"
    using c by (auto simp: fetch_page_def MAX_RETRIES_def eval_nat_numeral Let_def backoffs_def)
qed

lemma fetch_page_other_status:
  assumes "k < MAX_RETRIES" and "\<forall>i<k. retryable (net i)"
    and "net k = Raises (HTTPError code)" and "code \<noteq> 429" and "code \<noteq> 503"
  shows "fst (fetch_page net page) = Inr ''''"
    and "requests (snd (fetch_page net page)) = Suc k"
    and "backoffs (snd (fetch_page net page)) = map (\<lambda>i. RETRY_DELAY * (i + 1)) [0..<k]"
proof -
  consider "k = 0" | "k = 1" | "k = 2"
    using assms(1) unfolding MAX_RETRIES_def by linarith
  then have "fst (fetch_page net page) = Inr ''''
      \<and> requests (snd (fetch_page net page)) = Suc k
      \<and> backoffs (snd (fetch_page net page)) = map (\<lambda>i. RETRY_DELAY * (i + 1)) [0..<k]"
  proof cases
    case 1
    then show ?thesis
      using assms(3,4,5)
      by (simp add: fetch_page_def MAX_RETRIES_def eval_nat_numeral requests_def backoffs_def)
  next
    case 2
    then have "retryable (net 0)" using assms(2) by simp
    from retryable_cases[OF this] show ?thesis
      using 2 assms(3,4,5)
      by (auto simp: fetch_page_def MAX_RETRIES_def eval_nat_numeral requests_def backoffs_def)
  next
    case 3
    then have "retryable (net 0)" "retryable (net 1)" using assms(2) by simp_all
    from retryable_cases[OF this(1)] retryable_cases[OF this(2)] show ?thesis
      using 3 assms(3,4,5)
      by (auto simp: fetch_page_def MAX_RETRIES_def eval_nat_numeral requests_def backoffs_def)
  qed
  then show "fst (fetch_page net page) = Inr ''''"
    and "requests (snd (fetch_page net page)) = Suc k"
    and "backoffs (snd (fetch_page net page)) = map (\<lambda>i. RETRY_DELAY * (i + 1)) [0..<k]"
    by simp_all
qed

text \<open>
  Claim C7, as the code has it. \<open>fetch_page\<close> catches \<open>HTTPError\<close> and \<open>URLError\<close>: when no
  attempt raises an exception of another class, it returns a string and raises nothing.
  When every attempt fails with a retryable error (HTTP 429 or 503, or \<open>URLError\<close>), it
  makes \<open>MAX_RETRIES\<close> requests, waits \<open>RETRY_DELAY * (attempt + 1)\<close> after each failed attempt
  that is followed by a wait (all of them, or all but the last when that one is a
  \<open>URLError\<close>) and returns the empty string. On any other HTTP status at attempt \<open>k\<close> it
  returns the empty string at once: \<open>k + 1\<close> requests were made and none follows.
\<close>

theorem fetch_page_errors:
  "((\<forall>i<MAX_RETRIES. \<forall>e. net i = Raises e \<longrightarrow> (\<exists>code. e = HTTPError code) \<or> e = URLError)
      \<longrightarrow> (\<exists>body. fst (fetch_page net page) = Inr body))
   \<and> ((\<forall>i<MAX_RETRIES. retryable (net i))
      \<longrightarrow> fst (fetch_page net page) = Inr ''''
        \<and> requests (snd (fetch_page net page)) = MAX_RETRIES
        \<and> (backoffs (snd (fetch_page net page))
              = map (\<lambda>i. RETRY_DELAY * (i + 1)) [0..<MAX_RETRIES]
           \<or> backoffs (snd (fetch_page net page))
              = map (\<lambda>i. RETRY_DELAY * (i + 1)) [0..<MAX_RETRIES - 1]))
   \<and> (k < MAX_RETRIES \<and> (\<forall>i<k. retryable (net i))
        \<and> net k = Raises (HTTPError code) \<and> code \<noteq> 429 \<and> code \<noteq> 503
      \<longrightarrow> fst (fetch_page net page) = Inr ''''
        \<and> requests (snd (fetch_page net page)) = Suc k
        \<and> backoffs (snd (fetch_page net page)) = map (\<lambda>i. RETRY_DELAY * (i + 1)) [0..<k])"
proof (intro conjI impI)
  assume "\<forall>i<MAX_RETRIES. \<forall>e. net i = Raises e \<longrightarrow> (\<exists>code. e = HTTPError code) \<or> e = URLError"
  then show "\<exists>body. fst (fetch_page net page) = Inr body"
    unfolding fetch_page_def by (intro fetch_attempts_no_raise) simp
next
  assume h: "\<forall>i<MAX_RETRIES. retryable (net i)"
  show "fst (fetch_page net page) = Inr ''''"
    by (rule fetch_page_exhausted(1)[OF h])
  show "requests (snd (fetch_page net page)) = MAX_RETRIES"
    by (rule fetch_page_exhausted(2)[OF h])
  show "backoffs (snd (fetch_page net page)) = map (\<lambda>i. RETRY_DELAY * (i + 1)) [0..<MAX_RETRIES]
       \<or> backoffs (snd (fetch_page net page))
            = map (\<lambda>i. RETRY_DELAY * (i + 1)) [0..<MAX_RETRIES - 1]"
    by (rule fetch_page_exhausted(3)[OF h])
next
  assume h: "k < MAX_RETRIES \<and> (\<forall>i<k. retryable (net i))
        \<and> net k = Raises (HTTPError code) \<and> code \<noteq> 429 \<and> code \<noteq> 503"
  show "fst (fetch_page net page) = Inr ''''"
    using h by (intro fetch_page_other_status(1)[of k net code]) auto
  show "requests (snd (fetch_page net page)) = Suc k"
    using h by (intro fetch_page_other_status(2)[of k net code]) auto
  show "backoffs (snd (fetch_page net page)) = map (\<lambda>i. RETRY_DELAY * (i + 1)) [0..<k]"
    using h by (intro fetch_page_other_status(3)[of k net code]) auto
qed

text \<open>Three times 503, and a connection error followed by a 404.\<close>

theorem fetch_page_errors_witness:
  "fetch_page (\<lambda>i. Raises (HTTPError 503)) ''http://packages.linuxmint.com/pool/main/m/''
     = (Inr '''',
        [Pause, Request ''http://packages.linuxmint.com/pool/main/m/'', Backoff 5,
         Pause, Request ''http://packages.linuxmint.com/pool/main/m/'', Backoff 10,
         Pause, Request ''http://packages.linuxmint.com/pool/main/m/'', Backoff 15])
   \<and> fst (fetch_page (\<lambda>i. if i = 0 then Raises URLError else Raises (HTTPError 404))
            ''http://packages.linuxmint.com/pool/main/m/'') = Inr ''''
   \<and> requests (snd (fetch_page (\<lambda>i. if i = 0 then Raises URLError else Raises (HTTPError 404))
            ''http://packages.linuxmint.com/pool/main/m/'')) = 2
   \<and> backoffs (snd (fetch_page (\<lambda>i. if i = 0 then Raises URLError else Raises (HTTPError 404))
            ''http://packages.linuxmint.com/pool/main/m/'')) = [5]"
proof -
  let ?u = "''http://packages.linuxmint.com/pool/main/m/''"
  let ?busy = "\<lambda>i::nat. Raises (HTTPError 503)"
  let ?gone = "\<lambda>i::nat. if i = 0 then Raises URLError else Raises (HTTPError 404)"
  have a: "fetch_page ?busy ?u
     = (Inr '''', [Pause, Request ?u, Backoff 5, Pause, Request ?u, Backoff 10,
                   Pause, Request ?u, Backoff 15])"
    by (simp add: fetch_page_def MAX_RETRIES_def RETRY_DELAY_def eval_nat_numeral)
  have b1: "\<forall>i<MAX_RETRIES. \<forall>e. ?busy i = Raises e \<longrightarrow> (\<exists>code. e = HTTPError code) \<or> e = URLError"
    by simp
  have b2: "\<forall>i<MAX_RETRIES. retryable (?busy i)"
    by (simp add: retryable_def)
  have b3: "(1::nat) < MAX_RETRIES \<and> (\<forall>i<1. retryable (?gone i))
        \<and> ?gone 1 = Raises (HTTPError 404) \<and> (404::nat) \<noteq> 429 \<and> (404::nat) \<noteq> 503"
    by (simp add: retryable_def MAX_RETRIES_def)
  from fetch_page_errors[of ?busy ?u 0 0] b1 b2
  have "fst (fetch_page ?busy ?u) = Inr ''''" by blast
  moreover from fetch_page_errors[of ?gone ?u 1 404] b3
  have "fst (fetch_page ?gone ?u) = Inr '''' \<and> requests (snd (fetch_page ?gone ?u)) = Suc 1
      \<and> backoffs (snd (fetch_page ?gone ?u)) = map (\<lambda>i. RETRY_DELAY * (i + 1)) [0..<1]"
    by blast
  ultimately show ?thesis using a by (simp add: RETRY_DELAY_def)
qed

text \<open>
  The first attempt returns a body that is not valid UTF-8: \<open>decode\<close> raises
  \<open>UnicodeDecodeError\<close>, neither handler catches it, and it reaches the caller.
\<close>

theorem fetch_page_errors_counterexample:
  "fetch_page (\<lambda>i. Raises UnicodeDecodeError) ''http://packages.linuxmint.com/pool/main/m/''
     = (Inl UnicodeDecodeError,
        [Pause, Request ''http://packages.linuxmint.com/pool/main/m/''])"
  by (simp add: fetch_page_def MAX_RETRIES_def eval_nat_numeral)

subsection \<open>Scanning the listings\<close>

lemma scan_tarballs_set:
  "set (fst (scan_tarballs ex ts acc)) \<union> set (snd (scan_tarballs ex ts acc))
     = set (fst acc) \<union> set (snd acc) \<union> {t \<in> set ts. fresh ex t}"
proof (induction ts arbitrary: acc)
  case Nil
  then show ?case by simp
next
  case (Cons t ts)
  obtain n u where acc: "acc = (n, u)" by (cases acc)
  show ?case
    unfolding acc
    by (auto simp: Cons.IH fresh_def Let_def split: prod.splits)
qed

lemma scan_dirs_set:
  "set (fst (scan_dirs ex tof ds acc)) \<union> set (snd (scan_dirs ex tof ds acc))
     = set (fst acc) \<union> set (snd acc) \<union> {t. \<exists>d\<in>set ds. t \<in> set (tof d) \<and> fresh ex t}"
proof (induction ds arbitrary: acc)
  case Nil
  then show ?case by simp
next
  case (Cons d ds)
  show ?case
    by (simp add: Cons.IH scan_tarballs_set) blast
qed

lemma any_update_iff: "any_update ex ts \<longleftrightarrow> (\<exists>t\<in>set ts. fresh ex t)"
  by (induction ts) (auto simp: fresh_def)

lemma any_update_dirs_iff:
  "any_update_dirs ex tof ds \<longleftrightarrow> (\<exists>d\<in>set ds. \<exists>t\<in>set (tof d). fresh ex t)"
  by (induction ds) (auto simp: any_update_iff)

lemma load_save [simp]:
  "get_packages (load_versions (save_versions data w)) = get_packages data"
  by (simp add: save_versions_def load_versions_def utcnow_def get_packages_def Let_def split: prod.splits)


subsection \<open>The walk over an extracted archive\<close>

lemma copy_files_step:
  "copy_files pkg base sub (f # files) w =
     (case copied_as pkg f of
        None \<Rightarrow> copy_files pkg base sub files w
      | Some dst \<Rightarrow> (case copy2 f base sub dst w of
                       Inl e \<Rightarrow> (Some e, w)
                     | Inr w' \<Rightarrow> copy_files pkg base sub files w'))"
  by (simp add: copied_as_def is_image_def is_screenshot_def is_credits_def Let_def)

declare copy_files.simps(2) [simp del]

lemma copy2_Inr:
  "copy2 src base sub dst w = Inr w' \<longleftrightarrow>
     copy2_error src = None \<and>
     w' = w\<lparr>output_tree :=
             AList.update base
               (AList.update sub (AList.update dst (payload src) (listdir w base sub))
                  (subdirs w base))
               (output_tree w),
           effects := effects w @ [Copy2 src base sub dst]\<rparr>"
  by (auto simp: copy2_def split: option.splits)

lemma copy2_Inl: "copy2 src base sub dst w = Inl e \<longleftrightarrow> copy2_error src = Some e"
  by (auto simp: copy2_def split: option.splits)

lemma copy2_frame:
  assumes "copy2 src base sub dst w = Inr w'"
  shows "versions_file w' = versions_file w" "temp w' = temp w" "ticks w' = ticks w"
    "archive_at w' = archive_at w" "utcnow_at w' = utcnow_at w"
    "effects w' = effects w @ [Copy2 src base sub dst]"
    "outside_files w' = outside_files w"
  using assms by (simp_all add: copy2_Inr)

lemma copy_files_frame:
  assumes "copy_files pkg base sub files w = (r, w')"
  shows "versions_file w' = versions_file w \<and> temp w' = temp w \<and> ticks w' = ticks w
    \<and> archive_at w' = archive_at w \<and> utcnow_at w' = utcnow_at w
    \<and> outside_files w' = outside_files w"
  using assms
proof (induction files arbitrary: w)
  case Nil
  then show ?case by simp
next
  case (Cons f files)
  show ?case
  proof (cases "copied_as pkg f")
    case None
    with Cons show ?thesis by (simp add: copy_files_step)
  next
    case (Some dst)
    show ?thesis
    proof (cases "copy2 f base sub dst w")
      case (Inl e)
      with Some Cons.prems show ?thesis by (simp add: copy_files_step)
    next
      case (Inr w1)
      with Some Cons.prems have "copy_files pkg base sub files w1 = (r, w')"
        by (simp add: copy_files_step)
      from Cons.IH[OF this] copy2_frame[OF Inr] show ?thesis by simp
    qed
  qed
qed

text \<open>The copies made are those of an initial part of the walk; of all of it when nothing raised.\<close>

lemma copy_files_effects:
  assumes "copy_files pkg base sub files w = (r, w')"
  shows "\<exists>done. prefix done files \<and> effects w' = effects w @ copy_events pkg base sub done
           \<and> (r = None \<longrightarrow> done = files)"
  using assms
proof (induction files arbitrary: w)
  case Nil
  then show ?case by (simp add: copy_events_def)
next
  case (Cons f files)
  show ?case
  proof (cases "copied_as pkg f")
    case None
    with Cons.prems have "copy_files pkg base sub files w = (r, w')"
      by (simp add: copy_files_step)
    from Cons.IH[OF this] obtain d where d: "prefix d files"
      "effects w' = effects w @ copy_events pkg base sub d" "r = None \<longrightarrow> d = files" by blast
    then have "prefix (f # d) (f # files) \<and> effects w' = effects w @ copy_events pkg base sub (f # d)
       \<and> (r = None \<longrightarrow> f # d = f # files)"
      using None by (simp add: copy_events_def)
    then show ?thesis by blast
  next
    case (Some dst)
    show ?thesis
    proof (cases "copy2 f base sub dst w")
      case (Inl e)
      with Some Cons.prems have "r = Some e" "w' = w" by (simp_all add: copy_files_step)
      then have "prefix [] (f # files) \<and> effects w' = effects w @ copy_events pkg base sub []
         \<and> (r = None \<longrightarrow> [] = f # files)"
        by (simp add: copy_events_def)
      then show ?thesis by blast
    next
      case (Inr w1)
      with Some Cons.prems have "copy_files pkg base sub files w1 = (r, w')"
        by (simp add: copy_files_step)
      from Cons.IH[OF this] obtain d where d: "prefix d files"
        "effects w' = effects w1 @ copy_events pkg base sub d" "r = None \<longrightarrow> d = files" by blast
      then have "prefix (f # d) (f # files) \<and> effects w' = effects w @ copy_events pkg base sub (f # d)
         \<and> (r = None \<longrightarrow> f # d = f # files)"
        using Some copy2_frame(6)[OF Inr] by (simp add: copy_events_def)
      then show ?thesis by blast
    qed
  qed
qed

text \<open>Nothing raises exactly when no file that is copied has a failing copy.\<close>

lemma copy_files_raises_iff:
  "fst (copy_files pkg base sub files w) = None
     \<longleftrightarrow> (\<forall>f\<in>set files. copied_as pkg f \<noteq> None \<longrightarrow> copy2_error f = None)"
proof (induction files arbitrary: w)
  case Nil
  then show ?case by simp
next
  case (Cons f files)
  show ?case
  proof (cases "copied_as pkg f")
    case None
    then show ?thesis by (simp add: copy_files_step Cons.IH)
  next
    case (Some dst)
    show ?thesis
    proof (cases "copy2 f base sub dst w")
      case (Inl e)
      then have "copy2_error f = Some e" by (simp add: copy2_Inl)
      then show ?thesis using Some Inl by (simp add: copy_files_step)
    next
      case (Inr w1)
      then have "copy2_error f = None" by (simp add: copy2_Inr)
      then show ?thesis using Some Inr by (simp add: copy_files_step Cons.IH)
    qed
  qed
qed



lemma listdir_copy2:
  assumes "copy2 src base sub dst w = Inr w'"
  shows "listdir w' base sub = AList.update dst (payload src) (listdir w base sub)"
  using assms by (simp add: copy2_Inr listdir_def subdirs_def update_conv')

lemma listdir_makedirs: "listdir (makedirs base sub w) base sub = listdir w base sub"
  by (simp add: makedirs_def listdir_def subdirs_def update_conv')

lemma copy_files_content:
  assumes "copy_files pkg base sub files w = (None, w')"
    and "\<forall>g\<in>set files. copied_as pkg g = Some n \<longrightarrow> payload g = p"
    and "map_of (listdir w base sub) n = Some p \<or> (\<exists>g\<in>set files. copied_as pkg g = Some n)"
  shows "map_of (listdir w' base sub) n = Some p"
  using assms
proof (induction files arbitrary: w)
  case Nil
  then show ?case by simp
next
  case (Cons f files)
  show ?case
  proof (cases "copied_as pkg f")
    case None
    with Cons.prems(1) have run: "copy_files pkg base sub files w = (None, w')"
      by (simp add: copy_files_step)
    show ?thesis
      by (rule Cons.IH[OF run]) (use Cons.prems(2,3) None in auto)
  next
    case (Some dst)
    show ?thesis
    proof (cases "copy2 f base sub dst w")
      case (Inl e)
      with Some Cons.prems(1) show ?thesis by (simp add: copy_files_step)
    next
      case (Inr w1)
      with Some Cons.prems(1) have run: "copy_files pkg base sub files w1 = (None, w')"
        by (simp add: copy_files_step)
      have l1: "map_of (listdir w1 base sub) = (map_of (listdir w base sub))(dst \<mapsto> payload f)"
        by (simp add: listdir_copy2[OF Inr] update_conv')
      show ?thesis
      proof (rule Cons.IH[OF run])
        show "\<forall>g\<in>set files. copied_as pkg g = Some n \<longrightarrow> payload g = p"
          using Cons.prems(2) by simp
        show "map_of (listdir w1 base sub) n = Some p \<or> (\<exists>g\<in>set files. copied_as pkg g = Some n)"
          using Cons.prems(2,3) Some l1 by auto
      qed
    qed
  qed
qed

lemma copy_files_append:
  "copy_files pkg base sub (xs @ ys) w =
     (case copy_files pkg base sub xs w of
        (None, w1) \<Rightarrow> copy_files pkg base sub ys w1
      | (Some e, w1) \<Rightarrow> (Some e, w1))"
proof (induction xs arbitrary: w)
  case Nil
  then show ?case by simp
next
  case (Cons f xs)
  show ?case
    by (simp add: copy_files_step Cons.IH split: option.splits sum.splits)
qed

lemma lower_append: "lower (a @ b) = lower a @ lower b"
  by (simp add: lower_def)

lemma credits_name_is_credits: "contains (lower (''Credits_'' @ pkg)) ''credits''"
proof -
  have "lower ''Credits_'' = ''credits'' @ ''_''" by (simp add: lower_def lower_char_def)
  then have "lower (''Credits_'' @ pkg) = ''credits'' @ (''_'' @ lower pkg)"
    unfolding lower_append by simp
  then show ?thesis unfolding contains_def by (metis sublist_append_rightI)
qed

lemma not_copied_as_credits:
  assumes "islink g \<or> \<not> is_credits g"
  shows "copied_as pkg g \<noteq> Some (''Credits_'' @ pkg)"
proof (cases "islink g")
  case True
  then show ?thesis by (simp add: copied_as_def)
next
  case False
  with assms have nc: "\<not> is_credits g" by simp
  have "file_name g \<noteq> ''Credits_'' @ pkg"
    using nc credits_name_is_credits[of pkg] by (auto simp: is_credits_def)
  then show ?thesis using nc by (simp add: copied_as_def)
qed

lemma entered_explicit:
  "entered t files w =
     w\<lparr>ticks := Suc (ticks w),
       temp := \<lparr>tarball_path = (if outside_tmpdir (name t) then None else Some (name t)),
                extract_dir = files\<rparr> # temp w,
       outside_files := (if outside_tmpdir (name t) then outside_files w @ [name t]
                         else outside_files w),
       effects := effects w @ [Download (url t)]\<rparr>"
  by (simp add: entered_def open_tarball_def extractall_def)

lemma download_and_extract_Extracted:
  assumes "archive_at w (ticks w) (url t) = Extracted files"
  shows "download_and_extract t base w =
     (let pkg = fst (extract_version_info (name t)); sub = normalize_package_name pkg;
          rw = copy_files pkg base sub files (makedirs base sub (entered t files w))
      in (fst rw = None, (snd rw)\<lparr>temp := temp w\<rparr>))"
proof -
  obtain pkg ver where pv: "extract_version_info (name t) = (pkg, ver)"
    by (cases "extract_version_info (name t)")
  let ?sub = "normalize_package_name pkg"
  let ?w0 = "makedirs base ?sub (entered t files w)"
  obtain r w1 where run: "copy_files pkg base ?sub files ?w0 = (r, w1)"
    by (cases "copy_files pkg base ?sub files ?w0")
  have "temp w1 = temp ?w0" using copy_files_frame[OF run] by simp
  then have t1: "tl (temp w1) = temp w" by (simp add: makedirs_def entered_explicit)
  have "download_and_extract t base w = (r = None, w1\<lparr>temp := tl (temp w1)\<rparr>)"
    using assms pv run
    by (simp add: download_and_extract_def try_download_and_extract_def entered_def Let_def)
  then show ?thesis using pv run t1 by (simp add: Let_def)
qed

lemma download_and_extract_Download_raises:
  assumes "archive_at w (ticks w) (url t) = Download_raises e"
  shows "download_and_extract t base w = (False, w\<lparr>ticks := Suc (ticks w)\<rparr>)"
  using assms
  by (simp add: download_and_extract_def try_download_and_extract_def Let_def split: prod.splits)

lemma download_and_extract_Write_raises:
  assumes "archive_at w (ticks w) (url t) = Write_raises e"
  shows "download_and_extract t base w =
           (False, w\<lparr>ticks := Suc (ticks w),
                     outside_files := (if outside_tmpdir (name t) then outside_files w @ [name t]
                                       else outside_files w)\<rparr>)"
  using assms
  by (simp add: download_and_extract_def try_download_and_extract_def open_tarball_def Let_def
        split: prod.splits)

lemma download_and_extract_Extract_raises:
  assumes "archive_at w (ticks w) (url t) = Extract_raises e"
  shows "download_and_extract t base w =
           (False, w\<lparr>ticks := Suc (ticks w),
                     outside_files := (if outside_tmpdir (name t) then outside_files w @ [name t]
                                       else outside_files w),
                     effects := effects w @ [Download (url t)]\<rparr>)"
  using assms
  by (simp add: download_and_extract_def try_download_and_extract_def open_tarball_def Let_def
        split: prod.splits)



lemma copy_events_mem:
  "Copy2 src b s d \<in> set (copy_events pkg base sub fs)
     \<longleftrightarrow> src \<in> set fs \<and> b = base \<and> s = sub \<and> copied_as pkg src = Some d"
  by (auto simp: copy_events_def split: option.splits)


lemma listdir_temp [simp]: "listdir (w\<lparr>temp := x\<rparr>) base sub = listdir w base sub"
  by (simp add: listdir_def subdirs_def)

lemma listdir_entered [simp]: "listdir (entered t files w) base sub = listdir w base sub"
  by (simp add: listdir_def subdirs_def entered_explicit)

text \<open>What a run on an extracted archive does, in one statement.\<close>

lemma download_and_extract_run:
  assumes "archive_at w (ticks w) (url t) = Extracted files"
  defines "pkg \<equiv> fst (extract_version_info (name t))"
  defines "sub \<equiv> normalize_package_name pkg"
  obtains seen r w1 where
    "prefix seen files"
    "r = None \<Longrightarrow> seen = files"
    "fst (download_and_extract t base w) = (r = None)"
    "effects (snd (download_and_extract t base w))
       = effects w @ Download (url t) # copy_events pkg base sub seen"
    "copy_files pkg base sub files (makedirs base sub (entered t files w)) = (r, w1)"
    "listdir (snd (download_and_extract t base w)) base sub = listdir w1 base sub"
proof -
  let ?w0 = "makedirs base sub (entered t files w)"
  obtain r w1 where run: "copy_files pkg base sub files ?w0 = (r, w1)"
    by (cases "copy_files pkg base sub files ?w0")
  have dae: "download_and_extract t base w = (r = None, w1\<lparr>temp := temp w\<rparr>)"
    using download_and_extract_Extracted[OF assms(1), of base] run
    by (simp add: Let_def pkg_def sub_def)
  from copy_files_effects[OF run] obtain d where d: "prefix d files"
    "effects w1 = effects ?w0 @ copy_events pkg base sub d" "r = None \<longrightarrow> d = files"
    by blast
  have e0: "effects ?w0 = effects w @ [Download (url t)]"
    by (simp add: makedirs_def entered_explicit)
  show ?thesis
  proof (rule that[of d r w1])
    show "prefix d files" by (rule d(1))
    show "r = None \<Longrightarrow> d = files" using d(3) by simp
    show "fst (download_and_extract t base w) = (r = None)" using dae by simp
    show "effects (snd (download_and_extract t base w))
       = effects w @ Download (url t) # copy_events pkg base sub d"
      using d(2) e0 dae by simp
    show "copy_files pkg base sub files ?w0 = (r, w1)" by (rule run)
    show "listdir (snd (download_and_extract t base w)) base sub = listdir w1 base sub"
      using dae by simp
  qed
qed


lemma copied_as_SomeD:
  "copied_as pkg g = Some n \<Longrightarrow> \<not> islink g \<and> (n = file_name g \<or> n = ''Credits_'' @ pkg)"
  by (simp add: copied_as_def split: if_splits)

lemma copied_as_not_screenshot:
  "copied_as pkg g = Some n \<Longrightarrow> \<not> (is_image g \<and> is_screenshot g)"
  by (simp add: copied_as_def split: if_splits)

subsection \<open>Concrete runs\<close>

lemma scenario_archive: "archive_at (world_with d) (ticks (world_with d)) u = d"
  by (simp add: world_with_def)

lemma scenario_package: "extract_version_info (name scenario_tarball) = (''nadia'', ''1.4'')"
  by (simp add: scenario_tarball_def extract_version_info_def split_first_def)

lemma scenario_dir: "normalize_package_name ''nadia'' = ''nadia''"
  by (simp add: normalize_package_name_def)

lemmas name_tests = is_image_def is_screenshot_def is_credits_def image_extensions_def
  endswith_def contains_def lower_def lower_char_def suffix_to_prefix sublist_Cons_right

lemma wallpaper1_jpg_tests:
  "\<not> islink wallpaper1_jpg" "is_image wallpaper1_jpg" "\<not> is_screenshot wallpaper1_jpg"
  by (simp_all add: wallpaper1_jpg_def name_tests)

lemma link_to_wallpaper1_jpg_tests: "islink link_to_wallpaper1_jpg" "is_image link_to_wallpaper1_jpg"
  by (simp_all add: link_to_wallpaper1_jpg_def name_tests)

lemma screenshot_1_png_tests:
  "\<not> islink screenshot_1_png" "is_image screenshot_1_png" "is_screenshot screenshot_1_png"
  by (simp_all add: screenshot_1_png_def name_tests)

lemma Credits_file_tests:
  "\<not> islink Credits_file" "\<not> is_image Credits_file" "is_credits Credits_file"
  by (simp_all add: Credits_file_def name_tests)

lemma broken_jpg_tests:
  "\<not> islink broken_jpg" "is_image broken_jpg" "\<not> is_screenshot broken_jpg"
  by (simp_all add: broken_jpg_def name_tests)

lemma credits_jpg_tests:
  "\<not> islink credits_jpg" "is_image credits_jpg" "\<not> is_screenshot credits_jpg"
  "is_credits credits_jpg"
  by (simp_all add: credits_jpg_def name_tests)

lemma scenario_ok: "fst (download_and_extract scenario_tarball OUTPUT_DIR scenario_world)"
  by (simp add: scenario_world_def download_and_extract_Extracted[OF scenario_archive] Let_def
        copy_files_raises_iff scenario_files_def wallpaper1_jpg_def link_to_wallpaper1_jpg_def
        screenshot_1_png_def Credits_file_def)

text \<open>
  The end-to-end scenario: the archive holds a wallpaper, a symbolic link to it, a screenshot
  and a credits file; the package directory ends up with the wallpaper and the renamed credits
  file and nothing else.
\<close>

lemma scenario_copied_as:
  "copied_as pkg wallpaper1_jpg = Some ''wallpaper1.jpg''"
  "copied_as pkg link_to_wallpaper1_jpg = None"
  "copied_as pkg screenshot_1_png = None"
  "copied_as pkg Credits_file = Some (''Credits_'' @ pkg)"
  using wallpaper1_jpg_tests link_to_wallpaper1_jpg_tests screenshot_1_png_tests
    Credits_file_tests
  by (simp_all add: copied_as_def)
     (simp_all add: wallpaper1_jpg_def)

lemma scenario_extract:
  "output_tree (snd (download_and_extract scenario_tarball OUTPUT_DIR
                       (makedirs_base OUTPUT_DIR scenario_world)))
     = [(OUTPUT_DIR, [(''nadia'', [(''wallpaper1.jpg'', wallpaper),
                                    (''Credits_nadia'', credits_text)])])]"
proof -
  let ?w = "makedirs_base OUTPUT_DIR scenario_world"
  have a: "archive_at ?w (ticks ?w) (url scenario_tarball) = Extracted scenario_files"
    by (simp add: makedirs_base_def scenario_world_def world_with_def)
  have e: "copy2_error wallpaper1_jpg = None" "payload wallpaper1_jpg = wallpaper"
    "copy2_error Credits_file = None" "payload Credits_file = credits_text"
    by (simp_all add: wallpaper1_jpg_def Credits_file_def)
  show ?thesis
    by (simp add: download_and_extract_Extracted[OF a] Let_def scenario_package scenario_dir
          scenario_files_def copy_files_step scenario_copied_as copy2_def e)
       (simp add: makedirs_def makedirs_base_def entered_explicit listdir_def subdirs_def
          scenario_world_def world_with_def OUTPUT_DIR_def)
qed

subsection \<open>Archive Processor\<close>

text \<open>Where the tarball file goes. A name without a slash stays in the temporary directory.\<close>

lemma path_components_plain: "CHR ''/'' \<notin> set s \<Longrightarrow> path_components s = [s]"
  by (induction s) auto

lemma plain_name_inside: "CHR ''/'' \<notin> set s \<Longrightarrow> \<not> outside_tmpdir s"
  by (cases s) (simp_all add: outside_tmpdir_def path_components_plain)



lemma outside_tmpdir_examples:
  "outside_tmpdir ''/var/tmp/x.tar.gz''"
  "outside_tmpdir ''../x.tar.gz''"
  "outside_tmpdir ''extracted/../../x.tar.gz''"
  "\<not> outside_tmpdir ''extracted/../x.tar.gz''"
  "\<not> outside_tmpdir ''./x.tar.gz''"
  "\<not> outside_tmpdir ''x.tar.gz''"
  by (simp_all add: outside_tmpdir_def)



lemma scenario_name: "\<not> outside_tmpdir (name scenario_tarball)"
  by (rule plain_name_inside) (simp add: scenario_tarball_def)




text \<open>
  Claim C3, as the code has it. In every run on an extracted archive, each copy made has a
  source that is a file of the archive, is not a symbolic link and is not an image whose
  lowercased name contains \<open>screenshot\<close>. When the run returns \<open>True\<close> (no copy raised), every
  file that is not a link, has an image extension and is not a screenshot is copied under
  its own name into the directory of the normalized package name; the destination then holds
  the file's contents and metadata, whatever was there before, provided no other copied
  file of the archive has the same name with other contents.
\<close>

theorem archive_images_copied:
  "archive_at w (ticks w) (url t) = Extracted files \<longrightarrow>
     (\<exists>new. effects (snd (download_and_extract t base w)) = effects w @ Download (url t) # new
        \<and> (\<forall>src b s d. Copy2 src b s d \<in> set new \<longrightarrow>
              src \<in> set files \<and> \<not> islink src \<and> \<not> (is_image src \<and> is_screenshot src))
        \<and> (fst (download_and_extract t base w) \<longrightarrow>
              (\<forall>f\<in>set files. \<not> islink f \<and> is_image f \<and> \<not> is_screenshot f \<longrightarrow>
                 Copy2 f base (normalize_package_name (fst (extract_version_info (name t))))
                   (file_name f) \<in> set new)))
     \<and> (fst (download_and_extract t base w) \<and> f \<in> set files
          \<and> \<not> islink f \<and> is_image f \<and> \<not> is_screenshot f
          \<and> (\<forall>g\<in>set files. \<not> islink g \<and> file_name g = file_name f \<longrightarrow> payload g = payload f)
          \<and> file_name f \<noteq> ''Credits_'' @ fst (extract_version_info (name t))
        \<longrightarrow> map_of (listdir (snd (download_and_extract t base w)) base
                      (normalize_package_name (fst (extract_version_info (name t)))))
              (file_name f) = Some (payload f))"
proof (intro impI)
  assume ar: "archive_at w (ticks w) (url t) = Extracted files"
  let ?pkg = "fst (extract_version_info (name t))"
  let ?sub = "normalize_package_name ?pkg"
  from download_and_extract_run[OF ar, of base]
  obtain seen r w1 where run:
    "prefix seen files" "r = None \<Longrightarrow> seen = files"
    "fst (download_and_extract t base w) = (r = None)"
    "effects (snd (download_and_extract t base w))
       = effects w @ Download (url t) # copy_events ?pkg base ?sub seen"
    "copy_files ?pkg base ?sub files (makedirs base ?sub (entered t files w)) = (r, w1)"
    "listdir (snd (download_and_extract t base w)) base ?sub = listdir w1 base ?sub"
    by blast
  have sub: "set seen \<subseteq> set files" using run(1) by (rule set_mono_prefix)
  have never: "\<forall>src b s d. Copy2 src b s d \<in> set (copy_events ?pkg base ?sub seen) \<longrightarrow>
      src \<in> set files \<and> \<not> islink src \<and> \<not> (is_image src \<and> is_screenshot src)"
  proof (intro allI impI)
    fix src b s d
    assume "Copy2 src b s d \<in> set (copy_events ?pkg base ?sub seen)"
    then have m: "src \<in> set seen" "copied_as ?pkg src = Some d"
      by (simp_all add: copy_events_mem)
    show "src \<in> set files \<and> \<not> islink src \<and> \<not> (is_image src \<and> is_screenshot src)"
      using sub m(1) copied_as_SomeD[OF m(2)] copied_as_not_screenshot[OF m(2)] by blast
  qed
  have every: "fst (download_and_extract t base w) \<longrightarrow>
      (\<forall>f\<in>set files. \<not> islink f \<and> is_image f \<and> \<not> is_screenshot f \<longrightarrow>
         Copy2 f base ?sub (file_name f) \<in> set (copy_events ?pkg base ?sub seen))"
  proof (intro impI ballI)
    fix f
    assume ok: "fst (download_and_extract t base w)"
      and f: "f \<in> set files" "\<not> islink f \<and> is_image f \<and> \<not> is_screenshot f"
    from ok run(2,3) have "seen = files" by simp
    moreover have "copied_as ?pkg f = Some (file_name f)" using f(2) by (simp add: copied_as_def)
    ultimately show "Copy2 f base ?sub (file_name f) \<in> set (copy_events ?pkg base ?sub seen)"
      using f(1) by (simp add: copy_events_mem)
  qed
  have content: "map_of (listdir (snd (download_and_extract t base w)) base ?sub) (file_name f)
        = Some (payload f)"
    if h: "fst (download_and_extract t base w) \<and> f \<in> set files
          \<and> \<not> islink f \<and> is_image f \<and> \<not> is_screenshot f
          \<and> (\<forall>g\<in>set files. \<not> islink g \<and> file_name g = file_name f \<longrightarrow> payload g = payload f)
          \<and> file_name f \<noteq> ''Credits_'' @ ?pkg"
  proof -
    from h run(3,5) have cf:
      "copy_files ?pkg base ?sub files (makedirs base ?sub (entered t files w)) = (None, w1)"
      by simp
    have "map_of (listdir w1 base ?sub) (file_name f) = Some (payload f)"
    proof (rule copy_files_content[OF cf])
      show "\<forall>g\<in>set files. copied_as ?pkg g = Some (file_name f) \<longrightarrow> payload g = payload f"
      proof (intro ballI impI)
        fix g assume g: "g \<in> set files" "copied_as ?pkg g = Some (file_name f)"
        from copied_as_SomeD[OF g(2)] h have "\<not> islink g \<and> file_name g = file_name f" by auto
        with h g(1) show "payload g = payload f" by blast
      qed
      have "copied_as ?pkg f = Some (file_name f)" using h by (simp add: copied_as_def)
      then show "map_of (listdir (makedirs base ?sub (entered t files w)) base ?sub) (file_name f)
            = Some (payload f) \<or> (\<exists>g\<in>set files. copied_as ?pkg g = Some (file_name f))"
        using h by blast
    qed
    then show ?thesis using run(6) by simp
  qed
  have A: "\<exists>new. effects (snd (download_and_extract t base w)) = effects w @ Download (url t) # new
        \<and> (\<forall>src b s d. Copy2 src b s d \<in> set new \<longrightarrow>
              src \<in> set files \<and> \<not> islink src \<and> \<not> (is_image src \<and> is_screenshot src))
        \<and> (fst (download_and_extract t base w) \<longrightarrow>
              (\<forall>f\<in>set files. \<not> islink f \<and> is_image f \<and> \<not> is_screenshot f \<longrightarrow>
                 Copy2 f base ?sub (file_name f) \<in> set new))"
    by (intro exI[of _ "copy_events ?pkg base ?sub seen"] conjI run(4) never every)
  show "(\<exists>new. effects (snd (download_and_extract t base w)) = effects w @ Download (url t) # new
        \<and> (\<forall>src b s d. Copy2 src b s d \<in> set new \<longrightarrow>
              src \<in> set files \<and> \<not> islink src \<and> \<not> (is_image src \<and> is_screenshot src))
        \<and> (fst (download_and_extract t base w) \<longrightarrow>
              (\<forall>f\<in>set files. \<not> islink f \<and> is_image f \<and> \<not> is_screenshot f \<longrightarrow>
                 Copy2 f base ?sub (file_name f) \<in> set new)))
     \<and> (fst (download_and_extract t base w) \<and> f \<in> set files
          \<and> \<not> islink f \<and> is_image f \<and> \<not> is_screenshot f
          \<and> (\<forall>g\<in>set files. \<not> islink g \<and> file_name g = file_name f \<longrightarrow> payload g = payload f)
          \<and> file_name f \<noteq> ''Credits_'' @ ?pkg
        \<longrightarrow> map_of (listdir (snd (download_and_extract t base w)) base ?sub)
              (file_name f) = Some (payload f))"
  proof (intro conjI impI A)
    assume h: "fst (download_and_extract t base w) \<and> f \<in> set files
          \<and> \<not> islink f \<and> is_image f \<and> \<not> is_screenshot f
          \<and> (\<forall>g\<in>set files. \<not> islink g \<and> file_name g = file_name f \<longrightarrow> payload g = payload f)
          \<and> file_name f \<noteq> ''Credits_'' @ ?pkg"
    show "map_of (listdir (snd (download_and_extract t base w)) base ?sub) (file_name f)
        = Some (payload f)"
      by (rule content[OF h])
  qed
qed

theorem archive_images_copied_witness:
  "fst (download_and_extract scenario_tarball OUTPUT_DIR scenario_world)
   \<and> map_of (listdir (snd (download_and_extract scenario_tarball OUTPUT_DIR scenario_world))
              OUTPUT_DIR ''nadia'') ''wallpaper1.jpg'' = Some wallpaper"
proof -
  have h: "fst (download_and_extract scenario_tarball OUTPUT_DIR scenario_world)
      \<and> wallpaper1_jpg \<in> set scenario_files
      \<and> \<not> islink wallpaper1_jpg \<and> is_image wallpaper1_jpg \<and> \<not> is_screenshot wallpaper1_jpg
      \<and> (\<forall>g\<in>set scenario_files. \<not> islink g \<and> file_name g = file_name wallpaper1_jpg
            \<longrightarrow> payload g = payload wallpaper1_jpg)
      \<and> file_name wallpaper1_jpg
           \<noteq> ''Credits_'' @ fst (extract_version_info (name scenario_tarball))"
    using scenario_ok wallpaper1_jpg_tests
    by (simp add: scenario_files_def scenario_package)
       (simp add: wallpaper1_jpg_def link_to_wallpaper1_jpg_def screenshot_1_png_def
          Credits_file_def)
  have a: "archive_at scenario_world (ticks scenario_world) (url scenario_tarball)
      = Extracted scenario_files"
    by (simp add: scenario_world_def scenario_archive)
  from archive_images_copied[of scenario_world scenario_tarball scenario_files OUTPUT_DIR
         wallpaper1_jpg] a h
  have "map_of (listdir (snd (download_and_extract scenario_tarball OUTPUT_DIR scenario_world))
          OUTPUT_DIR (normalize_package_name (fst (extract_version_info (name scenario_tarball)))))
          (file_name wallpaper1_jpg) = Some (payload wallpaper1_jpg)"
    by blast
  then show ?thesis
    using scenario_ok by (simp add: scenario_package scenario_dir wallpaper1_jpg_def)
qed

text \<open>
  An archive whose first image cannot be copied (\<open>copy2\<close> raises \<open>OSError\<close> on it): the walk
  ends there, \<open>wallpaper1.jpg\<close> behind it is an image, no link and no screenshot, and is not
  copied.
\<close>

lemma unreadable_run:
  "download_and_extract scenario_tarball OUTPUT_DIR (world_with (Extracted [broken_jpg, wallpaper1_jpg]))
     = (False, (makedirs OUTPUT_DIR ''nadia''
                  (entered scenario_tarball [broken_jpg, wallpaper1_jpg]
                     (world_with (Extracted [broken_jpg, wallpaper1_jpg]))))
               \<lparr>temp := []\<rparr>)"
proof -
  have c: "copied_as ''nadia'' broken_jpg = Some ''broken.jpg''"
    using broken_jpg_tests by (simp add: copied_as_def) (simp add: broken_jpg_def)
  have e: "copy2 broken_jpg b s d w = Inl OSError" for b s d w
    by (simp add: copy2_def broken_jpg_def)
  show ?thesis
    by (simp add: download_and_extract_Extracted[OF scenario_archive] Let_def scenario_package
          scenario_dir copy_files_step c e)
       (simp add: world_with_def)
qed

theorem archive_images_copied_counterexample:
  "\<not> islink wallpaper1_jpg \<and> is_image wallpaper1_jpg \<and> \<not> is_screenshot wallpaper1_jpg
   \<and> \<not> fst (download_and_extract scenario_tarball OUTPUT_DIR
               (world_with (Extracted [broken_jpg, wallpaper1_jpg])))
   \<and> effects (snd (download_and_extract scenario_tarball OUTPUT_DIR
                      (world_with (Extracted [broken_jpg, wallpaper1_jpg]))))
       = [Download (url scenario_tarball)]
   \<and> map_of (listdir (snd (download_and_extract scenario_tarball OUTPUT_DIR
                             (world_with (Extracted [broken_jpg, wallpaper1_jpg]))))
              OUTPUT_DIR ''nadia'') ''wallpaper1.jpg'' = None"
  using wallpaper1_jpg_tests
  by (simp add: unreadable_run listdir_makedirs)
     (simp add: makedirs_def entered_explicit world_with_def listdir_def subdirs_def)

text \<open>
  Claim C4, as the code has it. The image test comes first: a copied file with an image
  extension keeps its own name, also when its name contains \<open>credits\<close>; a copied file
  without an image extension has \<open>credits\<close> in its lowercased name and goes to
  \<open>Credits_<package_name>\<close>, with the package name as \<open>extract_version_info\<close> returns it.
  When the run returns \<open>True\<close>, every file that is not a link, has no image extension and
  has \<open>credits\<close> in its lowercased name is copied so, and the last of them in the walk is
  what \<open>Credits_<package_name>\<close> holds.
\<close>

theorem credits_copied:
  "archive_at w (ticks w) (url t) = Extracted files \<longrightarrow>
     (\<exists>new. effects (snd (download_and_extract t base w)) = effects w @ Download (url t) # new
        \<and> (\<forall>src b s d. Copy2 src b s d \<in> set new \<longrightarrow>
              (if is_image src then d = file_name src
               else is_credits src \<and> d = ''Credits_'' @ fst (extract_version_info (name t))))
        \<and> (fst (download_and_extract t base w) \<longrightarrow>
              (\<forall>f\<in>set files. \<not> islink f \<and> \<not> is_image f \<and> is_credits f \<longrightarrow>
                 Copy2 f base (normalize_package_name (fst (extract_version_info (name t))))
                   (''Credits_'' @ fst (extract_version_info (name t))) \<in> set new)))
     \<and> (fst (download_and_extract t base w) \<and> files = before @ f # after
          \<and> \<not> islink f \<and> \<not> is_image f \<and> is_credits f
          \<and> (\<forall>g\<in>set after. islink g \<or> \<not> is_credits g)
        \<longrightarrow> map_of (listdir (snd (download_and_extract t base w)) base
                      (normalize_package_name (fst (extract_version_info (name t)))))
              (''Credits_'' @ fst (extract_version_info (name t))) = Some (payload f))"
proof (intro impI)
  assume ar: "archive_at w (ticks w) (url t) = Extracted files"
  let ?pkg = "fst (extract_version_info (name t))"
  let ?sub = "normalize_package_name ?pkg"
  let ?n = "''Credits_'' @ ?pkg"
  from download_and_extract_run[OF ar, of base]
  obtain seen r w1 where run:
    "prefix seen files" "r = None \<Longrightarrow> seen = files"
    "fst (download_and_extract t base w) = (r = None)"
    "effects (snd (download_and_extract t base w))
       = effects w @ Download (url t) # copy_events ?pkg base ?sub seen"
    "copy_files ?pkg base ?sub files (makedirs base ?sub (entered t files w)) = (r, w1)"
    "listdir (snd (download_and_extract t base w)) base ?sub = listdir w1 base ?sub"
    by blast
  have names: "\<forall>src b s d. Copy2 src b s d \<in> set (copy_events ?pkg base ?sub seen) \<longrightarrow>
      (if is_image src then d = file_name src else is_credits src \<and> d = ?n)"
    by (auto simp: copy_events_mem copied_as_def split: if_splits)
  have every: "fst (download_and_extract t base w) \<longrightarrow>
      (\<forall>f\<in>set files. \<not> islink f \<and> \<not> is_image f \<and> is_credits f \<longrightarrow>
         Copy2 f base ?sub ?n \<in> set (copy_events ?pkg base ?sub seen))"
    using run(2,3) by (auto simp: copy_events_mem copied_as_def)
  have last: "map_of (listdir (snd (download_and_extract t base w)) base ?sub) ?n = Some (payload f)"
    if h: "fst (download_and_extract t base w) \<and> files = before @ f # after
          \<and> \<not> islink f \<and> \<not> is_image f \<and> is_credits f
          \<and> (\<forall>g\<in>set after. islink g \<or> \<not> is_credits g)"
  proof -
    let ?w0 = "makedirs base ?sub (entered t files w)"
    from h run(3,5) have cf: "copy_files ?pkg base ?sub (before @ f # after) ?w0 = (None, w1)"
      by simp
    obtain rb wb where b: "copy_files ?pkg base ?sub before ?w0 = (rb, wb)"
      by (cases "copy_files ?pkg base ?sub before ?w0")
    with cf have rest: "copy_files ?pkg base ?sub (f # after) wb = (None, w1)"
      by (cases rb) (simp_all add: copy_files_append)
    have "map_of (listdir w1 base ?sub) ?n = Some (payload f)"
    proof (rule copy_files_content[OF rest])
      show "\<forall>g\<in>set (f # after). copied_as ?pkg g = Some ?n \<longrightarrow> payload g = payload f"
        using h not_copied_as_credits[of _ ?pkg] by auto
      have "copied_as ?pkg f = Some ?n" using h by (simp add: copied_as_def)
      then show "map_of (listdir wb base ?sub) ?n = Some (payload f)
            \<or> (\<exists>g\<in>set (f # after). copied_as ?pkg g = Some ?n)"
        by simp
    qed
    then show ?thesis using run(6) by simp
  qed
  have A: "\<exists>new. effects (snd (download_and_extract t base w)) = effects w @ Download (url t) # new
        \<and> (\<forall>src b s d. Copy2 src b s d \<in> set new \<longrightarrow>
              (if is_image src then d = file_name src else is_credits src \<and> d = ?n))
        \<and> (fst (download_and_extract t base w) \<longrightarrow>
              (\<forall>f\<in>set files. \<not> islink f \<and> \<not> is_image f \<and> is_credits f \<longrightarrow>
                 Copy2 f base ?sub ?n \<in> set new))"
    by (intro exI[of _ "copy_events ?pkg base ?sub seen"] conjI run(4) names every)
  show "(\<exists>new. effects (snd (download_and_extract t base w)) = effects w @ Download (url t) # new
        \<and> (\<forall>src b s d. Copy2 src b s d \<in> set new \<longrightarrow>
              (if is_image src then d = file_name src else is_credits src \<and> d = ?n))
        \<and> (fst (download_and_extract t base w) \<longrightarrow>
              (\<forall>f\<in>set files. \<not> islink f \<and> \<not> is_image f \<and> is_credits f \<longrightarrow>
                 Copy2 f base ?sub ?n \<in> set new)))
     \<and> (fst (download_and_extract t base w) \<and> files = before @ f # after
          \<and> \<not> islink f \<and> \<not> is_image f \<and> is_credits f
          \<and> (\<forall>g\<in>set after. islink g \<or> \<not> is_credits g)
        \<longrightarrow> map_of (listdir (snd (download_and_extract t base w)) base ?sub) ?n
              = Some (payload f))"
  proof (intro conjI impI A)
    assume h: "fst (download_and_extract t base w) \<and> files = before @ f # after
          \<and> \<not> islink f \<and> \<not> is_image f \<and> is_credits f
          \<and> (\<forall>g\<in>set after. islink g \<or> \<not> is_credits g)"
    show "map_of (listdir (snd (download_and_extract t base w)) base ?sub) ?n = Some (payload f)"
      by (rule last[OF h])
  qed
qed

theorem credits_copied_witness:
  "map_of (listdir (snd (download_and_extract scenario_tarball OUTPUT_DIR scenario_world))
             OUTPUT_DIR ''nadia'') ''Credits_nadia'' = Some credits_text"
proof -
  have h: "fst (download_and_extract scenario_tarball OUTPUT_DIR scenario_world)
      \<and> scenario_files = [wallpaper1_jpg, link_to_wallpaper1_jpg, screenshot_1_png] @ Credits_file # []
      \<and> \<not> islink Credits_file \<and> \<not> is_image Credits_file \<and> is_credits Credits_file
      \<and> (\<forall>g\<in>set []. islink g \<or> \<not> is_credits g)"
    using scenario_ok Credits_file_tests by (simp add: scenario_files_def)
  have a: "archive_at scenario_world (ticks scenario_world) (url scenario_tarball)
      = Extracted scenario_files"
    by (simp add: scenario_world_def scenario_archive)
  from credits_copied[of scenario_world scenario_tarball scenario_files OUTPUT_DIR
         "[wallpaper1_jpg, link_to_wallpaper1_jpg, screenshot_1_png]" Credits_file "[]"] a h
  have "map_of (listdir (snd (download_and_extract scenario_tarball OUTPUT_DIR scenario_world))
          OUTPUT_DIR (normalize_package_name (fst (extract_version_info (name scenario_tarball)))))
          (''Credits_'' @ fst (extract_version_info (name scenario_tarball)))
        = Some (payload Credits_file)"
    by blast
  then show ?thesis
    by (simp add: scenario_package scenario_dir Credits_file_def)
qed

text \<open>
  An archive that holds \<open>credits.jpg\<close>: its lowercased name contains \<open>credits\<close>, it is copied
  as \<open>credits.jpg\<close>, and there is no \<open>Credits_nadia\<close>.
\<close>

lemma credits_jpg_run:
  "download_and_extract scenario_tarball OUTPUT_DIR (world_with (Extracted [credits_jpg]))
     = (True, (makedirs OUTPUT_DIR ''nadia''
                 (entered scenario_tarball [credits_jpg] (world_with (Extracted [credits_jpg]))))
              \<lparr>output_tree := [(OUTPUT_DIR, [(''nadia'', [(''credits.jpg'', wallpaper)])])],
               effects := [Download (url scenario_tarball),
                           Copy2 credits_jpg OUTPUT_DIR ''nadia'' ''credits.jpg''],
               temp := []\<rparr>)"
proof -
  have c: "copied_as ''nadia'' credits_jpg = Some ''credits.jpg''"
    using credits_jpg_tests by (simp add: copied_as_def) (simp add: credits_jpg_def)
  have e: "copy2_error credits_jpg = None" "payload credits_jpg = wallpaper"
    by (simp_all add: credits_jpg_def)
  show ?thesis
    by (simp add: download_and_extract_Extracted[OF scenario_archive] Let_def scenario_package
          scenario_dir copy_files_step c copy2_def e)
       (simp add: makedirs_def entered_explicit world_with_def listdir_def subdirs_def)
qed

theorem credits_copied_counterexample:
  "\<not> islink credits_jpg \<and> is_credits credits_jpg
   \<and> effects (snd (download_and_extract scenario_tarball OUTPUT_DIR
                      (world_with (Extracted [credits_jpg]))))
       = [Download (url scenario_tarball), Copy2 credits_jpg OUTPUT_DIR ''nadia'' ''credits.jpg'']
   \<and> listdir (snd (download_and_extract scenario_tarball OUTPUT_DIR
                      (world_with (Extracted [credits_jpg])))) OUTPUT_DIR ''nadia''
       = [(''credits.jpg'', wallpaper)]"
  using credits_jpg_tests
  by (simp add: credits_jpg_run) (simp add: listdir_def subdirs_def)

subsection \<open>Update Orchestrator\<close>

lemma scan_tarballs_filter:
  "scan_tarballs ex (filter (\<lambda>t. MIN_SIZE_BYTES \<le> size_bytes t) ts) acc = scan_tarballs ex ts acc"
proof (induction ts arbitrary: acc)
  case Nil
  then show ?case by simp
next
  case (Cons t ts)
  obtain n u where acc: "acc = (n, u)" by (cases acc)
  show ?case unfolding acc
    by (simp add: Cons.IH Let_def split: prod.splits)
qed

lemma scan_dirs_filter:
  "scan_dirs ex (\<lambda>d. filter (\<lambda>t. MIN_SIZE_BYTES \<le> size_bytes t) (tof d)) ds acc
     = scan_dirs ex tof ds acc"
  by (induction ds arbitrary: acc) (simp_all add: scan_tarballs_filter)

lemma any_update_filter:
  "any_update ex (filter (\<lambda>t. MIN_SIZE_BYTES \<le> size_bytes t) ts) = any_update ex ts"
  by (induction ts) simp_all

lemma any_update_dirs_filter:
  "any_update_dirs ex (\<lambda>d. filter (\<lambda>t. MIN_SIZE_BYTES \<le> size_bytes t) (tof d)) ds
     = any_update_dirs ex tof ds"
  by (induction ds) (simp_all add: any_update_filter)

lemma set_update_subset: "set (AList.update k v al) \<subseteq> insert (k, v) (set al)"
  by (induction al) auto

lemma in_inventory_update:
  "in_inventory key (AList.update k v al) \<longleftrightarrow> key = k \<or> in_inventory key al"
  using dom_update[of k v al] by (auto simp: in_inventory_def)

lemma download_all_records:
  assumes "(key, r) \<in> set (fst (download_all ts ex w))"
  shows "(key, r) \<in> set ex
     \<or> (\<exists>t\<in>set ts. key = pkg_key (extract_version_info (name t))
            \<and> rec_name r = name t \<and> rec_size r = size_str t
            \<and> rec_version r = snd (extract_version_info (name t)))"
  using assms
proof (induction ts arbitrary: ex w)
  case Nil
  then show ?case by simp
next
  case (Cons t ts)
  obtain ok w1 where d: "download_and_extract t OUTPUT_DIR w = (ok, w1)"
    by (cases "download_and_extract t OUTPUT_DIR w")
  obtain pn ver where pv: "extract_version_info (name t) = (pn, ver)"
    by (cases "extract_version_info (name t)")
  show ?case
  proof (cases ok)
    case False
    with Cons.prems d have "(key, r) \<in> set (fst (download_all ts ex w1))" by simp
    from Cons.IH[OF this] show ?thesis by auto
  next
    case True
    let ?rec = "\<lparr>rec_name = name t, rec_version = ver, rec_size = size_str t,
                 downloaded_at = fst (utcnow w1)\<rparr>"
    from True Cons.prems d pv
    have "(key, r) \<in> set (fst (download_all ts (AList.update (pkg_key (pn, ver)) ?rec ex)
                                 (snd (utcnow w1))))"
      by (simp add: Let_def split: prod.splits)
    from Cons.IH[OF this] consider
      "(key, r) \<in> set (AList.update (pkg_key (pn, ver)) ?rec ex)"
      | "\<exists>t\<in>set ts. key = pkg_key (extract_version_info (name t))
            \<and> rec_name r = name t \<and> rec_size r = size_str t
            \<and> rec_version r = snd (extract_version_info (name t))"
      by blast
    then show ?thesis
    proof cases
      case 1
      then have "(key, r) = (pkg_key (pn, ver), ?rec) \<or> (key, r) \<in> set ex"
        using set_update_subset by fastforce
      then show ?thesis using pv by auto
    next
      case 2
      then show ?thesis by auto
    qed
  qed
qed

lemma download_all_keeps:
  "in_inventory key ex \<Longrightarrow> in_inventory key (fst (download_all ts ex w))"
proof (induction ts arbitrary: ex w)
  case Nil
  then show ?case by simp
next
  case (Cons t ts)
  show ?case
    by (auto simp: Let_def in_inventory_update Cons split: prod.splits intro!: Cons.IH)
qed



lemma check_and_download_packages:
  "get_packages (load_versions (snd (check_and_download dirs tof w)))
     = (let ex = get_packages (load_versions w);
            q = scan_dirs ex tof dirs ([], [])
        in if fst q @ snd q = [] then ex
           else fst (download_all (fst q @ snd q) ex (makedirs_base OUTPUT_DIR w)))"
  by (simp add: check_and_download_def Let_def get_packages_def[of "_\<lparr>packages := _\<rparr>"]
        split: prod.splits)

lemma scan_updates_Inr:
  "scan_updates get ex ds = Inr b \<Longrightarrow>
     (b \<longleftrightarrow> (\<exists>d\<in>set ds. \<exists>ts. get d = Inr ts \<and> any_update ex ts))"
  by (induction ds) (auto split: sum.splits if_splits)

lemma scan_updates_Inl:
  "scan_updates get ex ds = Inl e \<Longrightarrow> \<exists>d\<in>set ds. get d = Inl e"
  by (induction ds) (auto split: sum.splits if_splits)

lemma scan_updates_returns:
  "\<forall>d\<in>set ds. \<exists>ts. get d = Inr ts \<Longrightarrow> \<exists>b. scan_updates get ex ds = Inr b"
  by (induction ds) (auto split: sum.splits)

lemma scan_updates_listed:
  "\<forall>d\<in>set ds. get d = Inr (tof d) \<Longrightarrow> scan_updates get ex ds = Inr (any_update_dirs ex tof ds)"
  by (induction ds) auto

lemma scan_updates_skip:
  "\<forall>d\<in>set before. \<exists>ts. get d = Inr ts \<and> \<not> any_update ex ts
     \<Longrightarrow> scan_updates get ex (before @ rest) = scan_updates get ex rest"
  by (induction before) auto

lemma inventory_direct:
  "get_packages (load_versions w)
     = (case versions_file w of
          None \<Rightarrow> []
        | Some v \<Rightarrow> (case packages v of None \<Rightarrow> [] | Some ps \<Rightarrow> ps))"
  by (simp add: get_packages_def load_versions_def split: option.splits)

lemma fresh_novel: "fresh (get_packages (load_versions w)) t \<longleftrightarrow> novel w t"
  by (simp add: fresh_def novel_def in_inventory_def pkg_key_def inventory_direct)

lemma any_update_novel:
  "any_update (get_packages (load_versions w)) ts \<longleftrightarrow> (\<exists>t\<in>set ts. novel w t)"
  by (simp add: any_update_iff fresh_novel)

lemma has_updates_fetching_run:
  "has_updates_fetching set_order net w
     = (case get_package_directories net of
          Inl e \<Rightarrow> Inl e
        | Inr package_dirs \<Rightarrow>
            scan_updates (get_tarballs_for_package set_order net)
              (get_packages (load_versions w)) package_dirs, w)"
  by (simp add: has_updates_fetching_def Let_def split: sum.splits)

text \<open>
  Claim C9, as the code has it. \<open>has_updates\<close> writes nothing, whether it returns or raises:
  the world it leaves is the world it found, so the inventory file and the output tree are
  unchanged and no download, copy or save was made. When it returns, it returns \<open>True\<close>
  exactly when some tarball entry of a listed directory has at least \<open>MIN_SIZE_BYTES\<close> and a
  key that is not among the keys of \<open>packages\<close> in the inventory file. It returns when the
  directory page and every directory's page are fetched and parsed without an exception.
  The directories are listed one after the other, in sorted order: the first directory with
  such a tarball entry ends the run with \<open>True\<close>, and the first whose listing raises ends it
  with that exception, whatever the directories behind it hold; an exception that leaves
  \<open>has_updates\<close> is one that left \<open>get_package_directories\<close> or \<open>get_tarballs_for_package\<close>. On
  listings that were fetched, the answer is that of the loop over them.
\<close>

theorem has_updates_read_only:
  "snd (has_updates_fetching set_order net w) = w
   \<and> versions_file (snd (has_updates_fetching set_order net w)) = versions_file w
   \<and> output_tree (snd (has_updates_fetching set_order net w)) = output_tree w
   \<and> effects (snd (has_updates_fetching set_order net w)) = effects w
   \<and> (fst (has_updates_fetching set_order net w) = Inr b \<longrightarrow>
        (b \<longleftrightarrow> (\<exists>package_dirs pkg_dir tarballs tarball.
                 get_package_directories net = Inr package_dirs \<and> pkg_dir \<in> set package_dirs
                 \<and> get_tarballs_for_package set_order net pkg_dir = Inr tarballs
                 \<and> tarball \<in> set tarballs
                 \<and> MIN_SIZE_BYTES \<le> size_bytes tarball
                 \<and> fst (extract_version_info (name tarball)) @ ''_''
                      @ snd (extract_version_info (name tarball))
                     \<notin> fst ` set (case versions_file w of
                                      None \<Rightarrow> []
                                    | Some v \<Rightarrow> (case packages v of None \<Rightarrow> [] | Some ps \<Rightarrow> ps)))))
   \<and> (get_package_directories net = Inr dirs
        \<and> (\<forall>pkg_dir\<in>set dirs. \<exists>tarballs. get_tarballs_for_package set_order net pkg_dir = Inr tarballs)
        \<longrightarrow> (\<exists>b. fst (has_updates_fetching set_order net w) = Inr b))
   \<and> (get_package_directories net = Inr (before @ dir # behind)
        \<and> (\<forall>pkg_dir\<in>set before. \<exists>tarballs.
              get_tarballs_for_package set_order net pkg_dir = Inr tarballs
              \<and> (\<forall>tarball\<in>set tarballs. \<not> novel w tarball))
        \<and> get_tarballs_for_package set_order net dir = Inr found
        \<and> (\<exists>tarball\<in>set found. novel w tarball)
        \<longrightarrow> fst (has_updates_fetching set_order net w) = Inr True)
   \<and> (get_package_directories net = Inr (before @ dir # behind)
        \<and> (\<forall>pkg_dir\<in>set before. \<exists>tarballs.
              get_tarballs_for_package set_order net pkg_dir = Inr tarballs
              \<and> (\<forall>tarball\<in>set tarballs. \<not> novel w tarball))
        \<and> get_tarballs_for_package set_order net dir = Inl e
        \<longrightarrow> fst (has_updates_fetching set_order net w) = Inl e)
   \<and> (get_package_directories net = Inl e
        \<longrightarrow> fst (has_updates_fetching set_order net w) = Inl e)
   \<and> (fst (has_updates_fetching set_order net w) = Inl e \<longrightarrow>
        get_package_directories net = Inl e
        \<or> (\<exists>package_dirs pkg_dir. get_package_directories net = Inr package_dirs
              \<and> pkg_dir \<in> set package_dirs
              \<and> get_tarballs_for_package set_order net pkg_dir = Inl e))
   \<and> (get_package_directories net = Inr dirs
        \<and> (\<forall>pkg_dir\<in>set dirs. get_tarballs_for_package set_order net pkg_dir = Inr (tarballs_of pkg_dir))
        \<longrightarrow> has_updates_fetching set_order net w = (Inr (fst (has_updates dirs tarballs_of w)), w))
   \<and> snd (has_updates dirs tarballs_of w) = w
   \<and> (fst (has_updates dirs tarballs_of w)
        \<longleftrightarrow> (\<exists>pkg_dir\<in>set dirs. \<exists>tarball\<in>set (tarballs_of pkg_dir). novel w tarball))"
proof -
  let ?ex = "get_packages (load_versions w)"
  let ?get = "get_tarballs_for_package set_order net"
  note run = has_updates_fetching_run[of set_order net w]
  have unchanged: "snd (has_updates_fetching set_order net w) = w"
    by (simp add: run)
  have answer: "b \<longleftrightarrow> (\<exists>package_dirs pkg_dir tarballs tarball.
                 get_package_directories net = Inr package_dirs \<and> pkg_dir \<in> set package_dirs
                 \<and> ?get pkg_dir = Inr tarballs \<and> tarball \<in> set tarballs
                 \<and> MIN_SIZE_BYTES \<le> size_bytes tarball
                 \<and> fst (extract_version_info (name tarball)) @ ''_''
                      @ snd (extract_version_info (name tarball))
                     \<notin> fst ` set (case versions_file w of
                                      None \<Rightarrow> []
                                    | Some v \<Rightarrow> (case packages v of None \<Rightarrow> [] | Some ps \<Rightarrow> ps)))"
    if r: "fst (has_updates_fetching set_order net w) = Inr b"
  proof -
    from r run obtain ds where ds: "get_package_directories net = Inr ds"
      "scan_updates ?get ?ex ds = Inr b"
      by (auto split: sum.splits)
    have "b \<longleftrightarrow> (\<exists>d\<in>set ds. \<exists>ts. ?get d = Inr ts \<and> (\<exists>t\<in>set ts. novel w t))"
      using scan_updates_Inr[OF ds(2)] by (simp add: any_update_novel)
    then show ?thesis
      unfolding novel_def using ds(1) by auto
  qed
  have returns: "\<exists>b. fst (has_updates_fetching set_order net w) = Inr b"
    if h: "get_package_directories net = Inr dirs
        \<and> (\<forall>pkg_dir\<in>set dirs. \<exists>tarballs. ?get pkg_dir = Inr tarballs)"
    using scan_updates_returns[of dirs ?get ?ex] h by (simp add: run)
  have skip: "scan_updates ?get ?ex (before @ dir # behind) = scan_updates ?get ?ex (dir # behind)"
    if h: "\<forall>pkg_dir\<in>set before. \<exists>tarballs. ?get pkg_dir = Inr tarballs
              \<and> (\<forall>tarball\<in>set tarballs. \<not> novel w tarball)"
    using h by (intro scan_updates_skip) (simp add: any_update_novel)
  have early: "fst (has_updates_fetching set_order net w) = Inr True"
    if h: "get_package_directories net = Inr (before @ dir # behind)
        \<and> (\<forall>pkg_dir\<in>set before. \<exists>tarballs. ?get pkg_dir = Inr tarballs
              \<and> (\<forall>tarball\<in>set tarballs. \<not> novel w tarball))
        \<and> ?get dir = Inr found \<and> (\<exists>tarball\<in>set found. novel w tarball)"
  proof -
    from h have "scan_updates ?get ?ex (before @ dir # behind) = scan_updates ?get ?ex (dir # behind)"
      by (intro skip) simp
    also from h have "\<dots> = Inr True" by (simp add: any_update_novel)
    finally show ?thesis using h by (simp add: run)
  qed
  have stops: "fst (has_updates_fetching set_order net w) = Inl e"
    if h: "get_package_directories net = Inr (before @ dir # behind)
        \<and> (\<forall>pkg_dir\<in>set before. \<exists>tarballs. ?get pkg_dir = Inr tarballs
              \<and> (\<forall>tarball\<in>set tarballs. \<not> novel w tarball))
        \<and> ?get dir = Inl e"
  proof -
    from h have "scan_updates ?get ?ex (before @ dir # behind) = scan_updates ?get ?ex (dir # behind)"
      by (intro skip) simp
    also from h have "\<dots> = Inl e" by simp
    finally show ?thesis using h by (simp add: run)
  qed
  have first: "fst (has_updates_fetching set_order net w) = Inl e"
    if "get_package_directories net = Inl e"
    using that by (simp add: run)
  have raises: "get_package_directories net = Inl e
        \<or> (\<exists>package_dirs pkg_dir. get_package_directories net = Inr package_dirs
              \<and> pkg_dir \<in> set package_dirs \<and> ?get pkg_dir = Inl e)"
    if r: "fst (has_updates_fetching set_order net w) = Inl e"
  proof (cases "get_package_directories net")
    case (Inl e')
    with r run show ?thesis by simp
  next
    case (Inr ds)
    with r run have "scan_updates ?get ?ex ds = Inl e" by simp
    from scan_updates_Inl[OF this] Inr show ?thesis by blast
  qed
  have listed: "has_updates_fetching set_order net w = (Inr (fst (has_updates dirs tarballs_of w)), w)"
    if h: "get_package_directories net = Inr dirs
        \<and> (\<forall>pkg_dir\<in>set dirs. ?get pkg_dir = Inr (tarballs_of pkg_dir))"
  proof -
    from h have "scan_updates ?get ?ex dirs = Inr (any_update_dirs ?ex tarballs_of dirs)"
      by (intro scan_updates_listed) simp
    with h show ?thesis
      by (simp add: run has_updates_def Let_def)
  qed
  have loop: "fst (has_updates dirs tarballs_of w)
        \<longleftrightarrow> (\<exists>pkg_dir\<in>set dirs. \<exists>tarball\<in>set (tarballs_of pkg_dir). novel w tarball)"
    by (simp add: has_updates_def any_update_dirs_iff fresh_novel)
  have loop_w: "snd (has_updates dirs tarballs_of w) = w"
    by (simp add: has_updates_def)
  show ?thesis
    using unchanged answer returns early stops first raises listed loop loop_w
    by (intro conjI impI) simp_all
qed

lemma scenario_queue:
  "scan_dirs [] scenario_listing scenario_dirs ([], []) = ([scenario_tarball], [])"
  by (simp add: scenario_dirs_def scenario_listing_def scenario_package in_inventory_def)
     (simp add: scenario_tarball_def MIN_SIZE_BYTES_def MIN_SIZE_MB_def)

lemma fresh_world: "get_packages (load_versions (world_with d)) = []"
  by (simp add: world_with_def load_versions_def get_packages_def)

lemma scenario_pages:
  "get_package_directories scenario_net = Inr scenario_dirs"
  "get_tarballs_for_package remdups scenario_net ''mint-backgrounds-nadia'' = Inr [scenario_tarball]"
  by (simp add: scenario_dirs_def, code_simp, code_simp)

lemma late_failure_pages:
  "get_package_directories late_failure_net
     = Inr ([] @ ''mint-backgrounds-nadia'' # [''mint-backgrounds-olivia''])"
  "get_tarballs_for_package remdups late_failure_net ''mint-backgrounds-nadia''
     = Inr [scenario_tarball]"
  "get_tarballs_for_package remdups late_failure_net ''mint-backgrounds-olivia''
     = Inl UnicodeDecodeError"
  by (simp, code_simp, code_simp, code_simp)

lemma undecodable_pages:
  "get_package_directories undecodable_net
     = Inr [''mint-backgrounds-maya'', ''mint-backgrounds-nadia'']"
  "get_tarballs_for_package remdups undecodable_net ''mint-backgrounds-maya''
     = Inl UnicodeDecodeError"
  "get_tarballs_for_package remdups undecodable_net ''mint-backgrounds-nadia''
     = Inr [scenario_tarball]"
  by code_simp+

lemma garbled_pages:
  "get_package_directories garbled_net = Inr [''mint-backgrounds-nadia'']"
  "get_tarballs_for_package remdups garbled_net ''mint-backgrounds-nadia'' = Inl ValueError"
  by code_simp+

lemma scenario_size: "MIN_SIZE_BYTES \<le> size_bytes scenario_tarball"
  by (simp add: scenario_tarball_def MIN_SIZE_BYTES_def MIN_SIZE_MB_def)

lemma scenario_novel:
  "novel scenario_world scenario_tarball"
  "\<not> novel recorded_world scenario_tarball"
  "novel scenario_world (scenario_tarball\<lparr>size_bytes := 13631488\<rparr>)"
  "\<not> novel scenario_world (scenario_tarball\<lparr>size_bytes := 13631487\<rparr>)"
  using scenario_size
  by (simp_all add: novel_def scenario_package scenario_world_def world_with_def
        recorded_world_def MIN_SIZE_BYTES_def MIN_SIZE_MB_def)

theorem has_updates_read_only_witness:
  "has_updates_fetching remdups scenario_net scenario_world = (Inr True, scenario_world)
   \<and> has_updates_fetching remdups scenario_net recorded_world = (Inr False, recorded_world)
   \<and> fst (has_updates_fetching remdups late_failure_net scenario_world) = Inr True
   \<and> has_updates scenario_dirs (\<lambda>d. [scenario_tarball\<lparr>size_bytes := 13631488\<rparr>]) scenario_world
       = (True, scenario_world)
   \<and> has_updates scenario_dirs (\<lambda>d. [scenario_tarball\<lparr>size_bytes := 13631487\<rparr>]) scenario_world
       = (False, scenario_world)"
proof -
  have pages: "get_package_directories scenario_net = Inr scenario_dirs
      \<and> (\<forall>pkg_dir\<in>set scenario_dirs.
            get_tarballs_for_package remdups scenario_net pkg_dir = Inr (scenario_listing pkg_dir))"
    using scenario_pages by (simp add: scenario_dirs_def scenario_listing_def)
  have listed: "\<exists>pkg_dir\<in>set scenario_dirs. \<exists>tarball\<in>set (scenario_listing pkg_dir).
      novel scenario_world tarball"
    using scenario_novel(1) by (simp add: scenario_dirs_def scenario_listing_def)
  have known: "\<not> (\<exists>pkg_dir\<in>set scenario_dirs. \<exists>tarball\<in>set (scenario_listing pkg_dir).
      novel recorded_world tarball)"
    using scenario_novel(2) by (simp add: scenario_dirs_def scenario_listing_def)
  have large: "\<exists>pkg_dir\<in>set scenario_dirs.
      \<exists>tarball\<in>set [scenario_tarball\<lparr>size_bytes := 13631488\<rparr>]. novel scenario_world tarball"
    using scenario_novel(3) by (simp add: scenario_dirs_def)
  have small: "\<not> (\<exists>pkg_dir\<in>set scenario_dirs.
      \<exists>tarball\<in>set [scenario_tarball\<lparr>size_bytes := 13631487\<rparr>]. novel scenario_world tarball)"
    using scenario_novel(4) by (simp add: scenario_dirs_def)
  have late: "get_package_directories late_failure_net
         = Inr ([] @ ''mint-backgrounds-nadia'' # [''mint-backgrounds-olivia''])
        \<and> (\<forall>pkg_dir\<in>set []. \<exists>tarballs.
              get_tarballs_for_package remdups late_failure_net pkg_dir = Inr tarballs
              \<and> (\<forall>tarball\<in>set tarballs. \<not> novel scenario_world tarball))
        \<and> get_tarballs_for_package remdups late_failure_net ''mint-backgrounds-nadia''
            = Inr [scenario_tarball]
        \<and> (\<exists>tarball\<in>set [scenario_tarball]. novel scenario_world tarball)"
    using late_failure_pages(1,2) scenario_novel(1) by simp
  note first = has_updates_read_only[of remdups scenario_net scenario_world True scenario_dirs
      "[]" "''mint-backgrounds-nadia''" "[]" "[scenario_tarball]" URLError scenario_listing]
  from first have "get_package_directories scenario_net = Inr scenario_dirs
        \<and> (\<forall>pkg_dir\<in>set scenario_dirs.
              get_tarballs_for_package remdups scenario_net pkg_dir = Inr (scenario_listing pkg_dir))
        \<longrightarrow> has_updates_fetching remdups scenario_net scenario_world
              = (Inr (fst (has_updates scenario_dirs scenario_listing scenario_world)),
                 scenario_world)"
    by (elim conjE)
  from this pages
  have a1: "has_updates_fetching remdups scenario_net scenario_world
      = (Inr (fst (has_updates scenario_dirs scenario_listing scenario_world)), scenario_world)"
    by (rule mp)
  from first have "fst (has_updates scenario_dirs scenario_listing scenario_world)
      \<longleftrightarrow> (\<exists>pkg_dir\<in>set scenario_dirs. \<exists>tarball\<in>set (scenario_listing pkg_dir).
             novel scenario_world tarball)"
    by (elim conjE)
  with listed have "fst (has_updates scenario_dirs scenario_listing scenario_world)"
    by (rule_tac iffD2)
  with a1 have a: "has_updates_fetching remdups scenario_net scenario_world
      = (Inr True, scenario_world)"
    by simp
  note second = has_updates_read_only[of remdups scenario_net recorded_world True scenario_dirs
      "[]" "''mint-backgrounds-nadia''" "[]" "[scenario_tarball]" URLError scenario_listing]
  from second have "get_package_directories scenario_net = Inr scenario_dirs
        \<and> (\<forall>pkg_dir\<in>set scenario_dirs.
              get_tarballs_for_package remdups scenario_net pkg_dir = Inr (scenario_listing pkg_dir))
        \<longrightarrow> has_updates_fetching remdups scenario_net recorded_world
              = (Inr (fst (has_updates scenario_dirs scenario_listing recorded_world)),
                 recorded_world)"
    by (elim conjE)
  from this pages
  have b1: "has_updates_fetching remdups scenario_net recorded_world
      = (Inr (fst (has_updates scenario_dirs scenario_listing recorded_world)), recorded_world)"
    by (rule mp)
  from second have "fst (has_updates scenario_dirs scenario_listing recorded_world)
      \<longleftrightarrow> (\<exists>pkg_dir\<in>set scenario_dirs. \<exists>tarball\<in>set (scenario_listing pkg_dir).
             novel recorded_world tarball)"
    by (elim conjE)
  with known have "\<not> fst (has_updates scenario_dirs scenario_listing recorded_world)"
    by simp
  with b1 have b: "has_updates_fetching remdups scenario_net recorded_world
      = (Inr False, recorded_world)"
    by simp
  note third = has_updates_read_only[of remdups late_failure_net scenario_world True scenario_dirs
      "[]" "''mint-backgrounds-nadia''" "[''mint-backgrounds-olivia'']" "[scenario_tarball]"
      URLError scenario_listing]
  from third have "get_package_directories late_failure_net
         = Inr ([] @ ''mint-backgrounds-nadia'' # [''mint-backgrounds-olivia''])
        \<and> (\<forall>pkg_dir\<in>set []. \<exists>tarballs.
              get_tarballs_for_package remdups late_failure_net pkg_dir = Inr tarballs
              \<and> (\<forall>tarball\<in>set tarballs. \<not> novel scenario_world tarball))
        \<and> get_tarballs_for_package remdups late_failure_net ''mint-backgrounds-nadia''
            = Inr [scenario_tarball]
        \<and> (\<exists>tarball\<in>set [scenario_tarball]. novel scenario_world tarball)
        \<longrightarrow> fst (has_updates_fetching remdups late_failure_net scenario_world) = Inr True"
    by (elim conjE)
  from this late
  have e: "fst (has_updates_fetching remdups late_failure_net scenario_world) = Inr True"
    by (rule mp)
  note fourth = has_updates_read_only[of remdups scenario_net scenario_world True scenario_dirs
      "[]" "''mint-backgrounds-nadia''" "[]" "[scenario_tarball]" URLError
      "\<lambda>d. [scenario_tarball\<lparr>size_bytes := 13631488\<rparr>]"]
  from fourth
  have c1: "snd (has_updates scenario_dirs (\<lambda>d. [scenario_tarball\<lparr>size_bytes := 13631488\<rparr>])
                  scenario_world) = scenario_world"
    by (elim conjE)
  from fourth
  have "fst (has_updates scenario_dirs (\<lambda>d. [scenario_tarball\<lparr>size_bytes := 13631488\<rparr>])
               scenario_world)
      \<longleftrightarrow> (\<exists>pkg_dir\<in>set scenario_dirs.
             \<exists>tarball\<in>set [scenario_tarball\<lparr>size_bytes := 13631488\<rparr>].
             novel scenario_world tarball)"
    by (elim conjE)
  with large
  have "fst (has_updates scenario_dirs (\<lambda>d. [scenario_tarball\<lparr>size_bytes := 13631488\<rparr>])
               scenario_world)"
    by simp
  with c1
  have c: "has_updates scenario_dirs (\<lambda>d. [scenario_tarball\<lparr>size_bytes := 13631488\<rparr>]) scenario_world
       = (True, scenario_world)"
    by (simp add: prod_eq_iff)
  note fifth = has_updates_read_only[of remdups scenario_net scenario_world True scenario_dirs
      "[]" "''mint-backgrounds-nadia''" "[]" "[scenario_tarball]" URLError
      "\<lambda>d. [scenario_tarball\<lparr>size_bytes := 13631487\<rparr>]"]
  from fifth
  have d1: "snd (has_updates scenario_dirs (\<lambda>d. [scenario_tarball\<lparr>size_bytes := 13631487\<rparr>])
                  scenario_world) = scenario_world"
    by (elim conjE)
  from fifth
  have "fst (has_updates scenario_dirs (\<lambda>d. [scenario_tarball\<lparr>size_bytes := 13631487\<rparr>])
               scenario_world)
      \<longleftrightarrow> (\<exists>pkg_dir\<in>set scenario_dirs.
             \<exists>tarball\<in>set [scenario_tarball\<lparr>size_bytes := 13631487\<rparr>].
             novel scenario_world tarball)"
    by (elim conjE)
  with small
  have "\<not> fst (has_updates scenario_dirs (\<lambda>d. [scenario_tarball\<lparr>size_bytes := 13631487\<rparr>])
               scenario_world)"
    by simp
  with d1
  have d: "has_updates scenario_dirs (\<lambda>d. [scenario_tarball\<lparr>size_bytes := 13631487\<rparr>]) scenario_world
       = (False, scenario_world)"
    by (simp add: prod_eq_iff)
  from a b e c d show ?thesis by (intro conjI)
qed

text \<open>
  A mirror that lists \<open>mint-backgrounds-maya\<close> before \<open>mint-backgrounds-nadia\<close>: the page of
  the second shows a tarball of 16.5M whose key is not in the inventory, the page of the
  first cannot be decoded, and \<open>has_updates\<close> raises \<open>UnicodeDecodeError\<close> instead of returning
  \<open>True\<close>. On the mirror whose page shows a second tarball with the size \<open>1.6.5M\<close>, it raises
  the \<open>ValueError\<close> of \<open>float\<close>.
\<close>

theorem has_updates_read_only_counterexample:
  "get_package_directories undecodable_net
     = Inr [''mint-backgrounds-maya'', ''mint-backgrounds-nadia'']
   \<and> get_tarballs_for_package remdups undecodable_net ''mint-backgrounds-nadia''
       = Inr [scenario_tarball]
   \<and> MIN_SIZE_BYTES \<le> size_bytes scenario_tarball
   \<and> versions_file scenario_world = None
   \<and> has_updates_fetching remdups undecodable_net scenario_world
       = (Inl UnicodeDecodeError, scenario_world)
   \<and> has_updates_fetching remdups garbled_net scenario_world = (Inl ValueError, scenario_world)"
  using scenario_size
  by (simp add: undecodable_pages garbled_pages has_updates_fetching_def)
     (simp add: scenario_world_def world_with_def)

text \<open>
  Claim C2. Every queued tarball has at least \<open>MIN_SIZE_BYTES\<close>. Tarballs below the
  threshold have no influence: the queue, the whole run of \<open>check_and_download\<close> and the
  answer of \<open>has_updates\<close> are the same as on the listing without them, whatever the
  inventory holds; when all listed tarballs are below the threshold, nothing is queued and
  \<open>has_updates\<close> is \<open>False\<close>. Every inventory record that a run creates is built from a
  listed tarball of at least \<open>MIN_SIZE_BYTES\<close>: it carries that tarball's name and size
  string, under that tarball's key.
\<close>

theorem small_tarballs_skipped:
  "(\<forall>t \<in> set (fst (queued dirs tof w)) \<union> set (snd (queued dirs tof w)).
      MIN_SIZE_BYTES \<le> size_bytes t)
   \<and> queued dirs tof w
       = queued dirs (\<lambda>d. filter (\<lambda>t. MIN_SIZE_BYTES \<le> size_bytes t) (tof d)) w
   \<and> check_and_download dirs tof w
       = check_and_download dirs (\<lambda>d. filter (\<lambda>t. MIN_SIZE_BYTES \<le> size_bytes t) (tof d)) w
   \<and> (\<forall>key r. (key, r) \<in> set (get_packages (load_versions (snd (check_and_download dirs tof w))))
               \<and> (key, r) \<notin> set (get_packages (load_versions w))
        \<longrightarrow> (\<exists>t. (\<exists>d\<in>set dirs. t \<in> set (tof d)) \<and> MIN_SIZE_BYTES \<le> size_bytes t
                 \<and> key = pkg_key (extract_version_info (name t))
                 \<and> rec_name r = name t \<and> rec_size r = size_str t))
   \<and> has_updates dirs tof w
       = has_updates dirs (\<lambda>d. filter (\<lambda>t. MIN_SIZE_BYTES \<le> size_bytes t) (tof d)) w
   \<and> ((\<forall>d\<in>set dirs. \<forall>t\<in>set (tof d). size_bytes t < MIN_SIZE_BYTES)
        \<longrightarrow> \<not> fst (has_updates dirs tof w) \<and> queued dirs tof w = ([], []))"
proof -
  let ?ex = "get_packages (load_versions w)"
  let ?q = "scan_dirs ?ex tof dirs ([], [])"
  have qset: "set (fst ?q) \<union> set (snd ?q) = {t. \<exists>d\<in>set dirs. t \<in> set (tof d) \<and> fresh ?ex t}"
    using scan_dirs_set[of ?ex tof dirs "([], [])"] by simp
  have a: "\<forall>t \<in> set (fst (queued dirs tof w)) \<union> set (snd (queued dirs tof w)).
      MIN_SIZE_BYTES \<le> size_bytes t"
    using qset by (auto simp: queued_def fresh_def)
  have b: "queued dirs tof w
       = queued dirs (\<lambda>d. filter (\<lambda>t. MIN_SIZE_BYTES \<le> size_bytes t) (tof d)) w"
    by (simp add: queued_def scan_dirs_filter)
  have c: "check_and_download dirs tof w
       = check_and_download dirs (\<lambda>d. filter (\<lambda>t. MIN_SIZE_BYTES \<le> size_bytes t) (tof d)) w"
    by (simp add: check_and_download_def scan_dirs_filter)
  have d: "\<exists>t. (\<exists>d\<in>set dirs. t \<in> set (tof d)) \<and> MIN_SIZE_BYTES \<le> size_bytes t
                 \<and> key = pkg_key (extract_version_info (name t))
                 \<and> rec_name r = name t \<and> rec_size r = size_str t"
    if h: "(key, r) \<in> set (get_packages (load_versions (snd (check_and_download dirs tof w))))
               \<and> (key, r) \<notin> set ?ex" for key r
  proof -
    from h have "fst ?q @ snd ?q \<noteq> []"
      and "(key, r) \<in> set (fst (download_all (fst ?q @ snd ?q) ?ex (makedirs_base OUTPUT_DIR w)))"
      by (auto simp: check_and_download_packages Let_def split: if_splits)
    from download_all_records[OF this(2)] h
    obtain t where t: "t \<in> set (fst ?q @ snd ?q)" "key = pkg_key (extract_version_info (name t))"
      "rec_name r = name t" "rec_size r = size_str t"
      by blast
    from t(1) qset have "(\<exists>d\<in>set dirs. t \<in> set (tof d)) \<and> MIN_SIZE_BYTES \<le> size_bytes t"
      by (auto simp: fresh_def)
    with t show ?thesis by blast
  qed
  have e: "has_updates dirs tof w
       = has_updates dirs (\<lambda>d. filter (\<lambda>t. MIN_SIZE_BYTES \<le> size_bytes t) (tof d)) w"
    by (simp add: has_updates_def any_update_dirs_filter)
  have f: "\<not> fst (has_updates dirs tof w) \<and> queued dirs tof w = ([], [])"
    if h: "\<forall>d\<in>set dirs. \<forall>t\<in>set (tof d). size_bytes t < MIN_SIZE_BYTES"
  proof -
    from h have nb: "\<not> MIN_SIZE_BYTES \<le> size_bytes t" if "d \<in> set dirs" "t \<in> set (tof d)" for d t
      using that by fastforce
    then have e0: "{t. \<exists>d\<in>set dirs. t \<in> set (tof d) \<and> fresh ?ex t} = {}"
      by (auto simp: fresh_def)
    have "set (fst ?q) \<union> set (snd ?q) = {}" unfolding qset by (rule e0)
    then have "fst ?q = [] \<and> snd ?q = []" by simp
    then have "queued dirs tof w = ([], [])" by (simp add: queued_def prod_eq_iff)
    moreover have "\<not> fst (has_updates dirs tof w)"
      using nb by (auto simp: has_updates_def any_update_dirs_iff fresh_def)
    ultimately show ?thesis by simp
  qed
  show ?thesis
    using a b c d e f by blast
qed

lemma download_and_extract_frame:
  "archive_at (snd (download_and_extract t base w)) = archive_at w
   \<and> utcnow_at (snd (download_and_extract t base w)) = utcnow_at w
   \<and> versions_file (snd (download_and_extract t base w)) = versions_file w"
proof (cases "archive_at w (ticks w) (url t)")
  case (Download_raises e)
  then show ?thesis by (simp add: download_and_extract_Download_raises)
next
  case (Write_raises e)
  then show ?thesis by (simp add: download_and_extract_Write_raises)
next
  case (Extract_raises e)
  then show ?thesis by (simp add: download_and_extract_Extract_raises)
next
  case (Extracted files)
  let ?pkg = "fst (extract_version_info (name t))"
  let ?sub = "normalize_package_name ?pkg"
  obtain r w1 where run:
    "copy_files ?pkg base ?sub files (makedirs base ?sub (entered t files w)) = (r, w1)"
    by (cases "copy_files ?pkg base ?sub files (makedirs base ?sub (entered t files w))")
  have w0: "archive_at (makedirs base ?sub (entered t files w)) = archive_at w"
    "utcnow_at (makedirs base ?sub (entered t files w)) = utcnow_at w"
    "versions_file (makedirs base ?sub (entered t files w)) = versions_file w"
    by (simp_all add: makedirs_def entered_explicit)
  have "snd (download_and_extract t base w) = w1\<lparr>temp := temp w\<rparr>"
    by (simp add: download_and_extract_Extracted[OF Extracted] Let_def run)
  then show ?thesis using copy_files_frame[OF run] w0 by simp
qed

lemma download_all_frame:
  "archive_at (snd (download_all ts ex w)) = archive_at w
   \<and> utcnow_at (snd (download_all ts ex w)) = utcnow_at w"
proof (induction ts arbitrary: ex w)
  case Nil
  then show ?case by simp
next
  case (Cons t ts)
  obtain ok w1 where d: "download_and_extract t OUTPUT_DIR w = (ok, w1)"
    by (cases "download_and_extract t OUTPUT_DIR w")
  from download_and_extract_frame[of t OUTPUT_DIR w] d
  have f: "archive_at w1 = archive_at w" "utcnow_at w1 = utcnow_at w" by simp_all
  show ?case
    using d f by (simp add: Let_def Cons.IH utcnow_def split: prod.splits)
qed

text \<open>A network on which every download, extraction and copy succeeds.\<close>

lemma download_and_extract_healthy:
  assumes "\<forall>n u. \<exists>files. archive_at w n u = Extracted files \<and> (\<forall>f\<in>set files. copy2_error f = None)"
  shows "fst (download_and_extract t base w)"
proof -
  from assms obtain files where f: "archive_at w (ticks w) (url t) = Extracted files"
    "\<forall>f\<in>set files. copy2_error f = None" by blast
  show ?thesis
    using f(2) by (simp add: download_and_extract_Extracted[OF f(1)] Let_def copy_files_raises_iff)
qed

lemma download_all_healthy:
  assumes "\<forall>n u. \<exists>files. archive_at w n u = Extracted files \<and> (\<forall>f\<in>set files. copy2_error f = None)"
    and "t \<in> set ts"
  shows "in_inventory (pkg_key (extract_version_info (name t))) (fst (download_all ts ex w))"
  using assms
proof (induction ts arbitrary: ex w)
  case Nil
  then show ?case by simp
next
  case (Cons a ts)
  obtain ok w1 where d: "download_and_extract a OUTPUT_DIR w = (ok, w1)"
    by (cases "download_and_extract a OUTPUT_DIR w")
  have ok: ok using download_and_extract_healthy[OF Cons.prems(1), of a OUTPUT_DIR] d by simp
  obtain pn ver where pv: "extract_version_info (name a) = (pn, ver)"
    by (cases "extract_version_info (name a)")
  let ?rec = "\<lparr>rec_name = name a, rec_version = ver, rec_size = size_str a,
               downloaded_at = fst (utcnow w1)\<rparr>"
  let ?ex = "AList.update (pkg_key (pn, ver)) ?rec ex"
  have step: "download_all (a # ts) ex w = download_all ts ?ex (snd (utcnow w1))"
    using d ok pv by (simp add: Let_def split: prod.splits)
  have h1: "\<forall>n u. \<exists>files. archive_at (snd (utcnow w1)) n u = Extracted files
              \<and> (\<forall>f\<in>set files. copy2_error f = None)"
    using Cons.prems(1) download_and_extract_frame[of a OUTPUT_DIR w] d
    by (simp add: utcnow_def)
  show ?case
  proof (cases "t = a")
    case True
    have "in_inventory (pkg_key (extract_version_info (name t))) ?ex"
      using True pv by (simp add: in_inventory_update)
    then show ?thesis unfolding step by (rule download_all_keeps)
  next
    case False
    with Cons.prems(2) have "t \<in> set ts" by simp
    from Cons.IH[OF h1 this] show ?thesis unfolding step .
  qed
qed

lemma check_and_download_saved:
  "\<exists>v. versions_file (snd (check_and_download dirs tof w)) = Some v"
  by (simp add: check_and_download_def save_versions_def utcnow_def Let_def split: prod.splits)

lemma no_fresh_no_queue:
  assumes "\<forall>d\<in>set dirs. \<forall>t\<in>set (tof d). \<not> fresh ex t"
  shows "scan_dirs ex tof dirs ([], []) = ([], [])"
proof -
  have "set (fst (scan_dirs ex tof dirs ([], []))) \<union> set (snd (scan_dirs ex tof dirs ([], [])))
      = {t. \<exists>d\<in>set dirs. t \<in> set (tof d) \<and> fresh ex t}"
    using scan_dirs_set[of ex tof dirs "([], [])"] by simp
  also have "\<dots> = {}" using assms by blast
  finally show ?thesis by (simp add: prod_eq_iff)
qed

lemma second_run_queue:
  assumes same: "\<forall>d\<in>set dirs. set (tof2 d) = set (tof1 d)"
    and rec: "\<forall>t \<in> set (fst (queued dirs tof1 w)) \<union> set (snd (queued dirs tof1 w)).
        in_inventory (pkg_key (extract_version_info (name t)))
          (get_packages (load_versions (snd (check_and_download dirs tof1 w))))"
  shows "queued dirs tof2 (snd (check_and_download dirs tof1 w)) = ([], [])"
proof -
  let ?ex = "get_packages (load_versions w)"
  let ?w1 = "snd (check_and_download dirs tof1 w)"
  let ?ex1 = "get_packages (load_versions ?w1)"
  let ?q = "scan_dirs ?ex tof1 dirs ([], [])"
  have qset: "set (fst ?q) \<union> set (snd ?q) = {t. \<exists>d\<in>set dirs. t \<in> set (tof1 d) \<and> fresh ?ex t}"
    using scan_dirs_set[of ?ex tof1 dirs "([], [])"] by simp
  have keep: "in_inventory k ?ex1" if "in_inventory k ?ex" for k
    using that by (simp add: check_and_download_packages Let_def download_all_keeps)
  have "\<not> fresh ?ex1 t" if d: "d \<in> set dirs" and t: "t \<in> set (tof2 d)" for d t
  proof (cases "fresh ?ex t")
    case True
    from d t same have "t \<in> set (tof1 d)" by blast
    with True d qset have "t \<in> set (fst ?q) \<union> set (snd ?q)" by blast
    with rec have "in_inventory (pkg_key (extract_version_info (name t))) ?ex1"
      by (simp add: queued_def)
    then show ?thesis by (simp add: fresh_def)
  next
    case False
    then show ?thesis using keep by (auto simp: fresh_def)
  qed
  then show ?thesis unfolding queued_def by (intro no_fresh_no_queue) blast
qed

lemma save_versions_file:
  "\<exists>now st. versions_file (save_versions data w) = Some (data\<lparr>last_checked := now, stats := st\<rparr>)"
  by (simp add: save_versions_def utcnow_def Let_def split: prod.splits) blast

lemma second_run_result:
  assumes "queued dirs tof2 w1 = ([], [])" and "versions_file w1 = Some v1"
  shows "\<not> fst (check_and_download dirs tof2 w1)
    \<and> (\<exists>v2. versions_file (snd (check_and_download dirs tof2 w1)) = Some v2
           \<and> packages v2 = packages v1
           \<and> v2 = v1\<lparr>last_checked := last_checked v2, stats := stats v2\<rparr>)"
proof -
  have lv: "load_versions w1 = v1" using assms(2) by (simp add: load_versions_def)
  have run: "check_and_download dirs tof2 w1 = (False, save_versions v1 w1)"
    using assms(1) by (simp add: check_and_download_def queued_def lv)
  from save_versions_file[of v1 w1] obtain now st where
    "versions_file (save_versions v1 w1) = Some (v1\<lparr>last_checked := now, stats := st\<rparr>)"
    by blast
  then show ?thesis by (simp add: run)
qed

text \<open>
  Claim C1, as the code has it. Let a first run be followed by a second run whose
  listings hold the same tarballs in every directory. If every tarball that the first run
  queued is in the inventory afterwards, then the second run queues nothing, returns
  \<open>False\<close>, and the inventory document it saves differs from the one the first run saved
  at most in \<open>last_checked\<close> and the statistics; in particular \<open>packages\<close> is the same.
  The condition holds when every download, extraction and copy of the first run succeeds.
  It cannot be dropped: a record is stored only when \<open>download_and_extract\<close> returned
  \<open>True\<close>, so a tarball whose download failed is queued again.
\<close>

theorem second_run_idempotent:
  "((\<forall>d\<in>set dirs. set (tof2 d) = set (tof1 d))
      \<and> (\<forall>t \<in> set (fst (queued dirs tof1 w)) \<union> set (snd (queued dirs tof1 w)).
            in_inventory (pkg_key (extract_version_info (name t)))
              (get_packages (load_versions (snd (check_and_download dirs tof1 w)))))
     \<longrightarrow> queued dirs tof2 (snd (check_and_download dirs tof1 w)) = ([], [])
        \<and> \<not> fst (check_and_download dirs tof2 (snd (check_and_download dirs tof1 w)))
        \<and> (\<exists>v1 v2. versions_file (snd (check_and_download dirs tof1 w)) = Some v1
              \<and> versions_file (snd (check_and_download dirs tof2
                                       (snd (check_and_download dirs tof1 w)))) = Some v2
              \<and> packages v2 = packages v1
              \<and> v2 = v1\<lparr>last_checked := last_checked v2, stats := stats v2\<rparr>))
   \<and> ((\<forall>n u. \<exists>files. archive_at w n u = Extracted files \<and> (\<forall>f\<in>set files. copy2_error f = None))
     \<longrightarrow> (\<forall>t \<in> set (fst (queued dirs tof1 w)) \<union> set (snd (queued dirs tof1 w)).
            in_inventory (pkg_key (extract_version_info (name t)))
              (get_packages (load_versions (snd (check_and_download dirs tof1 w))))))"
proof (intro conjI impI)
  let ?w1 = "snd (check_and_download dirs tof1 w)"
  assume h: "(\<forall>d\<in>set dirs. set (tof2 d) = set (tof1 d))
      \<and> (\<forall>t \<in> set (fst (queued dirs tof1 w)) \<union> set (snd (queued dirs tof1 w)).
            in_inventory (pkg_key (extract_version_info (name t)))
              (get_packages (load_versions ?w1)))"
  have q: "queued dirs tof2 ?w1 = ([], [])"
    by (rule second_run_queue) (use h in blast)+
  obtain v1 where v1: "versions_file ?w1 = Some v1"
    using check_and_download_saved[of dirs tof1 w] by blast
  from second_run_result[OF q v1] v1
  show "queued dirs tof2 ?w1 = ([], [])"
    and "\<not> fst (check_and_download dirs tof2 ?w1)"
    and "\<exists>v1 v2. versions_file ?w1 = Some v1
              \<and> versions_file (snd (check_and_download dirs tof2 ?w1)) = Some v2
              \<and> packages v2 = packages v1
              \<and> v2 = v1\<lparr>last_checked := last_checked v2, stats := stats v2\<rparr>"
    using q by auto
next
  let ?ex = "get_packages (load_versions w)"
  let ?q = "scan_dirs ?ex tof1 dirs ([], [])"
  assume healthy: "\<forall>n u. \<exists>files. archive_at w n u = Extracted files
                     \<and> (\<forall>f\<in>set files. copy2_error f = None)"
  show "\<forall>t \<in> set (fst (queued dirs tof1 w)) \<union> set (snd (queued dirs tof1 w)).
            in_inventory (pkg_key (extract_version_info (name t)))
              (get_packages (load_versions (snd (check_and_download dirs tof1 w))))"
  proof
    fix t assume "t \<in> set (fst (queued dirs tof1 w)) \<union> set (snd (queued dirs tof1 w))"
    then have t: "t \<in> set (fst ?q @ snd ?q)" by (simp add: queued_def)
    then have ne: "fst ?q @ snd ?q \<noteq> []" by auto
    have h': "\<forall>n u. \<exists>files. archive_at (makedirs_base OUTPUT_DIR w) n u = Extracted files
                     \<and> (\<forall>f\<in>set files. copy2_error f = None)"
      using healthy by (simp add: makedirs_base_def)
    from download_all_healthy[OF h' t, of ?ex] ne
    show "in_inventory (pkg_key (extract_version_info (name t)))
              (get_packages (load_versions (snd (check_and_download dirs tof1 w))))"
      by (auto simp: check_and_download_packages Let_def)
  qed
qed

lemma scenario_healthy:
  "\<forall>n u. \<exists>files. archive_at scenario_world n u = Extracted files
     \<and> (\<forall>f\<in>set files. copy2_error f = None)"
  by (simp add: scenario_world_def world_with_def scenario_files_def wallpaper1_jpg_def
        link_to_wallpaper1_jpg_def screenshot_1_png_def Credits_file_def)

lemma scenario_queued:
  "queued scenario_dirs scenario_listing (world_with d) = ([scenario_tarball], [])"
  by (simp add: queued_def fresh_world scenario_queue)

lemma scenario_run_packages:
  "get_packages (load_versions
      (snd (check_and_download scenario_dirs scenario_listing scenario_world)))
     = [(''nadia_1.4'', \<lparr>rec_name = ''mint-backgrounds-nadia_1.4.tar.gz'', rec_version = ''1.4'',
                          rec_size = ''16.5M'', downloaded_at = ''2024-05-01T12:00:00''\<rparr>)]"
proof -
  let ?w0 = "makedirs_base OUTPUT_DIR scenario_world"
  have h: "\<forall>n u. \<exists>files. archive_at ?w0 n u = Extracted files
     \<and> (\<forall>f\<in>set files. copy2_error f = None)"
    using scenario_healthy by (simp add: makedirs_base_def)
  obtain ok w1 where d: "download_and_extract scenario_tarball OUTPUT_DIR ?w0 = (ok, w1)"
    by (cases "download_and_extract scenario_tarball OUTPUT_DIR ?w0")
  have ok: ok using download_and_extract_healthy[OF h, of scenario_tarball OUTPUT_DIR] d by simp
  have "utcnow_at w1 = utcnow_at ?w0"
    using download_and_extract_frame[of scenario_tarball OUTPUT_DIR ?w0] d by simp
  then have now: "fst (utcnow w1) = ''2024-05-01T12:00:00''"
    by (simp add: utcnow_def makedirs_base_def scenario_world_def world_with_def)
  have "fst (download_all [scenario_tarball] [] ?w0)
      = [(pkg_key (''nadia'', ''1.4''),
          \<lparr>rec_name = name scenario_tarball, rec_version = ''1.4'',
           rec_size = size_str scenario_tarball, downloaded_at = fst (utcnow w1)\<rparr>)]"
    using d ok by (simp add: scenario_package Let_def split: prod.splits)
  then show ?thesis
    using now
    by (simp add: check_and_download_packages Let_def scenario_world_def fresh_world
          scenario_queue pkg_key_def)
       (simp add: scenario_tarball_def)
qed

theorem second_run_idempotent_witness:
  "queued scenario_dirs scenario_listing scenario_world = ([scenario_tarball], [])
   \<and> queued scenario_dirs scenario_listing
        (snd (check_and_download scenario_dirs scenario_listing scenario_world)) = ([], [])
   \<and> \<not> fst (check_and_download scenario_dirs scenario_listing
               (snd (check_and_download scenario_dirs scenario_listing scenario_world)))"
proof -
  note inst = second_run_idempotent[of scenario_dirs scenario_listing scenario_listing scenario_world]
  from inst scenario_healthy
  have rec: "\<forall>t \<in> set (fst (queued scenario_dirs scenario_listing scenario_world))
                 \<union> set (snd (queued scenario_dirs scenario_listing scenario_world)).
            in_inventory (pkg_key (extract_version_info (name t)))
              (get_packages (load_versions
                 (snd (check_and_download scenario_dirs scenario_listing scenario_world))))"
    by blast
  have same: "\<forall>d\<in>set scenario_dirs. set (scenario_listing d) = set (scenario_listing d)"
    by simp
  from inst same rec
  have "queued scenario_dirs scenario_listing
          (snd (check_and_download scenario_dirs scenario_listing scenario_world)) = ([], [])
      \<and> \<not> fst (check_and_download scenario_dirs scenario_listing
                 (snd (check_and_download scenario_dirs scenario_listing scenario_world)))"
    by blast
  then show ?thesis
    using scenario_queued[of "Extracted scenario_files"] by (simp add: scenario_world_def)
qed

lemma offline_run_packages:
  "get_packages (load_versions
      (snd (check_and_download scenario_dirs scenario_listing
              (world_with (Download_raises URLError))))) = []"
proof -
  let ?w0 = "makedirs_base OUTPUT_DIR (world_with (Download_raises URLError))"
  have "archive_at ?w0 (ticks ?w0) (url scenario_tarball) = Download_raises URLError"
    by (simp add: makedirs_base_def world_with_def)
  then have "fst (download_all [scenario_tarball] [] ?w0) = []"
    by (simp add: download_and_extract_Download_raises)
  then show ?thesis
    by (simp add: check_and_download_packages Let_def fresh_world scenario_queue)
qed

text \<open>
  The first run meets a network on which the download raises \<open>URLError\<close>: nothing is
  recorded, and the second run, on the same listing, queues the tarball again.
\<close>

theorem second_run_idempotent_counterexample:
  "queued scenario_dirs scenario_listing
     (snd (check_and_download scenario_dirs scenario_listing
             (world_with (Download_raises URLError)))) = ([scenario_tarball], [])"
  by (simp add: queued_def offline_run_packages scenario_queue)

theorem small_tarballs_skipped_witness:
  "\<not> fst (has_updates scenario_dirs (\<lambda>d. [small_tarball]) scenario_world)
   \<and> queued scenario_dirs (\<lambda>d. [small_tarball]) scenario_world = ([], [])
   \<and> MIN_SIZE_BYTES \<le> size_bytes scenario_tarball
   \<and> (\<exists>t. (\<exists>d\<in>set scenario_dirs. t \<in> set (scenario_listing d))
          \<and> MIN_SIZE_BYTES \<le> size_bytes t
          \<and> ''nadia_1.4'' = pkg_key (extract_version_info (name t)))"
proof -
  have s: "\<forall>d\<in>set scenario_dirs. \<forall>t\<in>set [small_tarball]. size_bytes t < MIN_SIZE_BYTES"
    by (simp add: small_tarball_def MIN_SIZE_BYTES_def MIN_SIZE_MB_def)
  from small_tarballs_skipped[of scenario_dirs "\<lambda>d. [small_tarball]" scenario_world] s
  have a: "\<not> fst (has_updates scenario_dirs (\<lambda>d. [small_tarball]) scenario_world)
      \<and> queued scenario_dirs (\<lambda>d. [small_tarball]) scenario_world = ([], [])"
    by blast
  note inst = small_tarballs_skipped[of scenario_dirs scenario_listing scenario_world]
  have q: "scenario_tarball \<in> set (fst (queued scenario_dirs scenario_listing scenario_world))
                 \<union> set (snd (queued scenario_dirs scenario_listing scenario_world))"
    by (simp add: scenario_world_def scenario_queued)
  from inst q have b: "MIN_SIZE_BYTES \<le> size_bytes scenario_tarball" by blast
  let ?r = "\<lparr>rec_name = ''mint-backgrounds-nadia_1.4.tar.gz'', rec_version = ''1.4'',
             rec_size = ''16.5M'', downloaded_at = ''2024-05-01T12:00:00''\<rparr>"
  have new: "(''nadia_1.4'', ?r) \<in> set (get_packages (load_versions
                 (snd (check_and_download scenario_dirs scenario_listing scenario_world))))
      \<and> (''nadia_1.4'', ?r) \<notin> set (get_packages (load_versions scenario_world))"
  proof -
    have "get_packages (load_versions scenario_world) = []"
      by (simp add: scenario_world_def fresh_world)
    then show ?thesis by (simp add: scenario_run_packages)
  qed
  from inst new
  have c: "\<exists>t. (\<exists>d\<in>set scenario_dirs. t \<in> set (scenario_listing d))
          \<and> MIN_SIZE_BYTES \<le> size_bytes t
          \<and> ''nadia_1.4'' = pkg_key (extract_version_info (name t))
          \<and> rec_name ?r = name t \<and> rec_size ?r = size_str t"
    by blast
  then have "\<exists>t. (\<exists>d\<in>set scenario_dirs. t \<in> set (scenario_listing d))
          \<and> MIN_SIZE_BYTES \<le> size_bytes t
          \<and> ''nadia_1.4'' = pkg_key (extract_version_info (name t))"
    by blast
  with a b show ?thesis by blast
qed

end
